theory Spec2Isabelle
  imports Complex_Main "HOL-Library.Word"
begin

unbundle bit_operations_syntax

section \<open>Floating-point values and C++ integers\<close>

text \<open>
  \<^verbatim>\<open>BGFLOAT\<close> is a type name of \<^verbatim>\<open>Global.h\<close>, which is not among the sources: it
  stands for \<^verbatim>\<open>float\<close> or for \<^verbatim>\<open>double\<close>. A value is a real number or one of the
  special values of floating-point arithmetic.
\<close>

datatype BGFLOAT = Finite real | PlusInfinity | MinusInfinity | NaN

text \<open>
  The operations on \<^verbatim>\<open>BGFLOAT\<close> that the simulator and the driver use. They round,
  and how they round depends on the type behind \<^verbatim>\<open>BGFLOAT\<close>; so they are
  parameters: the quotient and the product of two values, the conversions from
  \<^verbatim>\<open>uint64_t\<close> and from \<^verbatim>\<open>int\<close>, and the text that \<^verbatim>\<open>operator<<\<close> writes to a stream.
\<close>

record BGFLOAT_arith =
  bg_div :: "BGFLOAT \<Rightarrow> BGFLOAT \<Rightarrow> BGFLOAT"
  bg_mul :: "BGFLOAT \<Rightarrow> BGFLOAT \<Rightarrow> BGFLOAT"
  bg_of_uint64 :: "64 word \<Rightarrow> BGFLOAT"
  bg_of_int :: "int \<Rightarrow> BGFLOAT"
  bg_print :: "BGFLOAT \<Rightarrow> string"

text \<open>
  A C++ \<^verbatim>\<open>int\<close> is modelled by its value, an integer between \<open>INT_MIN\<close> and
  \<open>INT_MAX\<close>. The bound \<open>INT_MAX\<close> is stated where the loop counter of
  \<^verbatim>\<open>Simulator::simulate\<close> needs it.
\<close>

definition INT_MAX :: int where
  "INT_MAX = 2 ^ 31 - 1"

definition INT_MIN :: int where
  "INT_MIN = - (2 ^ 31)"

text \<open>
  The product of two \<^verbatim>\<open>int\<close> values. A product outside the range of \<^verbatim>\<open>int\<close> is
  undefined behaviour: \<open>None\<close>.
\<close>

definition int_times :: "int \<Rightarrow> int \<Rightarrow> int option" where
  "int_times a b = (if INT_MIN \<le> a * b \<and> a * b \<le> INT_MAX then Some (a * b) else None)"

text \<open>A C++ conversion from a floating value to an integer type discards the fraction.\<close>

definition trunc :: "real \<Rightarrow> int" where
  "trunc x = (if x < 0 then \<lceil>x\<rceil> else \<lfloor>x\<rfloor>)"

text \<open>
  \<^verbatim>\<open>static_cast<uint64_t>(x)\<close> for a \<^verbatim>\<open>BGFLOAT\<close> \<open>x\<close>: the truncated value when it fits
  into a \<^verbatim>\<open>uint64_t\<close>. Otherwise, and for the special values, the conversion is
  undefined behaviour: \<open>None\<close>.
\<close>

fun static_cast_uint64 :: "BGFLOAT \<Rightarrow> 64 word option" where
  "static_cast_uint64 (Finite x) =
     (if - 1 < x \<and> x < 2 ^ 64 then Some (word_of_int (trunc x)) else None)"
| "static_cast_uint64 PlusInfinity = None"
| "static_cast_uint64 MinusInfinity = None"
| "static_cast_uint64 NaN = None"

text \<open>The cast \<^verbatim>\<open>(int) x\<close> for a \<^verbatim>\<open>BGFLOAT\<close> \<open>x\<close>, in the same way.\<close>

fun static_cast_int :: "BGFLOAT \<Rightarrow> int option" where
  "static_cast_int (Finite x) =
     (if real_of_int INT_MIN - 1 < x \<and> x < real_of_int INT_MAX + 1 then Some (trunc x)
      else None)"
| "static_cast_int PlusInfinity = None"
| "static_cast_int MinusInfinity = None"
| "static_cast_int NaN = None"

section \<open>Simulation configuration\<close>

text \<open>\<^verbatim>\<open>SimulationInfo\<close> as \<^verbatim>\<open>makeSimulationInfo\<close> fills it.\<close>

record SimulationInfo =
  totalNeurons :: int
  epochDuration :: BGFLOAT
  maxSteps :: int
  maxFiringRate :: int
  maxSynapsesPerNeuron :: int
  width :: int
  height :: int
  deltaT :: BGFLOAT
  seed :: int

text \<open>
  \<^verbatim>\<open>makeSimulationInfo\<close>. The parameter \<^verbatim>\<open>maxGrowthSteps\<close> is a \<^verbatim>\<open>BGFLOAT\<close> that is cast
  to \<^verbatim>\<open>int\<close>; the result is \<open>None\<close> where \<^verbatim>\<open>cols * rows\<close> or that cast is undefined.
\<close>

definition makeSimulationInfo ::
  "int \<Rightarrow> int \<Rightarrow> BGFLOAT \<Rightarrow> BGFLOAT \<Rightarrow> int \<Rightarrow> int \<Rightarrow> BGFLOAT \<Rightarrow> int \<Rightarrow> SimulationInfo option" where
  "makeSimulationInfo cols rows growthEpochDuration maxGrowthSteps mfr mspn new_deltaT sd =
     (case int_times cols rows of
        None \<Rightarrow> None
      | Some max_neurons \<Rightarrow>
          (case static_cast_int maxGrowthSteps of
             None \<Rightarrow> None
           | Some steps \<Rightarrow>
               Some \<lparr> totalNeurons = max_neurons,
                      epochDuration = growthEpochDuration,
                      maxSteps = steps,
                      maxFiringRate = mfr,
                      maxSynapsesPerNeuron = mspn,
                      width = cols,
                      height = rows,
                      deltaT = new_deltaT,
                      seed = sd \<rparr>))"

section \<open>The simulator\<close>

text \<open>
  The \<^verbatim>\<open>Network\<close> behind \<^verbatim>\<open>Simulator::network\<close> is a collaborator: the simulator only
  calls it. The model keeps the sequence of calls the simulator has made, oldest
  first, next to the global tick counter \<^verbatim>\<open>g_simulationStep\<close> (a \<^verbatim>\<open>uint64_t\<close>).
\<close>

datatype network_call =
    Setup BGFLOAT int
  | Advance
  | UpdateConnections int
  | Finish BGFLOAT int
  | SaveState
  | ReadSimMemory
  | WriteSimMemory int

record sim_state =
  g_simulationStep :: "64 word"
  calls :: "network_call list"

definition network_call :: "network_call \<Rightarrow> sim_state \<Rightarrow> sim_state" where
  "network_call c s = s\<lparr>calls := calls s @ [c]\<rparr>"

text \<open>
  The \<^verbatim>\<open>while\<close> loop of \<^verbatim>\<open>Simulator::advanceUntilGrowth\<close>: one \<^verbatim>\<open>network->advance()\<close>
  and one increment of the tick counter per iteration. The \<^verbatim>\<open>DEBUG_LOW\<close> progress
  output and its counter do not change the state.
\<close>

function advance_loop :: "64 word \<Rightarrow> sim_state \<Rightarrow> sim_state" where
  "advance_loop endStep s =
     (if g_simulationStep s < endStep
      then advance_loop endStep
             ((network_call Advance s)\<lparr>g_simulationStep := g_simulationStep s + 1\<rparr>)
      else s)"
  by pat_completeness auto
termination
proof (relation "measure (\<lambda>(endStep, s). unat endStep - unat (g_simulationStep s))")
  show "wf (measure (\<lambda>(endStep, s). unat endStep - unat (g_simulationStep s)))"
    by simp
next
  fix endStep :: "64 word" and s :: sim_state
  assume lt: "g_simulationStep s < endStep"
  then have below: "unat (g_simulationStep s) < unat endStep"
    by (simp add: word_less_nat_alt)
  moreover have "unat endStep < 2 ^ 64"
    using unsigned_less [of endStep] by simp
  ultimately have "unat (g_simulationStep s) + 1 < 2 ^ 64"
    by simp
  then have "unat (g_simulationStep s + 1) = Suc (unat (g_simulationStep s))"
    by (simp add: unat_word_ariths)
  with below show
    "((endStep, (network_call Advance s)\<lparr>g_simulationStep := g_simulationStep s + 1\<rparr>),
      (endStep, s))
     \<in> measure (\<lambda>(endStep, s). unat endStep - unat (g_simulationStep s))"
    by (simp add: network_call_def)
qed

text \<open>
  The number of ticks \<^verbatim>\<open>advanceUntilGrowth\<close> adds to the tick counter: the quotient
  \<^verbatim>\<open>epochDuration / deltaT\<close>, computed in \<^verbatim>\<open>BGFLOAT\<close>, cast to \<^verbatim>\<open>uint64_t\<close>.
\<close>

definition ticksPerEpoch :: "BGFLOAT_arith \<Rightarrow> SimulationInfo \<Rightarrow> 64 word option" where
  "ticksPerEpoch fl si = static_cast_uint64 (bg_div fl (epochDuration si) (deltaT si))"

text \<open>
  \<^verbatim>\<open>Simulator::advanceUntilGrowth\<close>. The sum that gives \<^verbatim>\<open>endStep\<close> is a sum of
  \<^verbatim>\<open>uint64_t\<close> values and wraps around. The result is \<open>None\<close> where the cast is
  undefined.
\<close>

definition advanceUntilGrowth ::
  "BGFLOAT_arith \<Rightarrow> SimulationInfo \<Rightarrow> int \<Rightarrow> sim_state \<Rightarrow> sim_state option" where
  "advanceUntilGrowth fl si currentStep s =
     (case static_cast_uint64 (bg_div fl (epochDuration si) (deltaT si)) of
        None \<Rightarrow> None
      | Some ticks \<Rightarrow>
          (let endStep = g_simulationStep s + ticks in Some (advance_loop endStep s)))"

text \<open>
  The \<^verbatim>\<open>for\<close> loop of \<^verbatim>\<open>Simulator::simulate\<close>, from the value of \<^verbatim>\<open>currentStep\<close> on.
  With \<open>maxSteps = INT_MAX\<close> the increment of the C++ counter overflows; the
  theorems about the loop assume \<open>maxSteps < INT_MAX\<close>.
\<close>

function simulate_loop ::
  "BGFLOAT_arith \<Rightarrow> SimulationInfo \<Rightarrow> int \<Rightarrow> sim_state \<Rightarrow> sim_state option" where
  "simulate_loop fl si currentStep s =
     (if currentStep \<le> maxSteps si
      then (case advanceUntilGrowth fl si currentStep s of
              None \<Rightarrow> None
            | Some s1 \<Rightarrow>
                simulate_loop fl si (currentStep + 1)
                  (network_call (UpdateConnections currentStep) s1))
      else Some s)"
  by pat_completeness auto
termination
  by (relation "measure (\<lambda>(fl, si, currentStep, s). nat (maxSteps si + 1 - currentStep))") auto

definition simulate :: "BGFLOAT_arith \<Rightarrow> SimulationInfo \<Rightarrow> sim_state \<Rightarrow> sim_state option" where
  "simulate fl si s =
     (case simulate_loop fl si 1 (network_call (Setup (epochDuration si) (maxSteps si)) s) of
        None \<Rightarrow> None
      | Some s' \<Rightarrow> Some (network_call (Finish (epochDuration si) (maxSteps si)) s'))"

text \<open>
  The state in which epoch \<open>n\<close> (1-based) begins: \<^verbatim>\<open>network->setup\<close> has been called
  and the loop body has run for \<^verbatim>\<open>currentStep\<close> = 1, ..., \<open>n - 1\<close>.
\<close>

definition epoch_start ::
  "BGFLOAT_arith \<Rightarrow> SimulationInfo \<Rightarrow> int \<Rightarrow> sim_state \<Rightarrow> sim_state option" where
  "epoch_start fl si n s =
     simulate_loop fl (si\<lparr>maxSteps := n - 1\<rparr>) 1
       (network_call (Setup (epochDuration si) (maxSteps si)) s)"

text \<open>
  \<^verbatim>\<open>Simulator::saveState\<close> lets the network write its state and then writes two
  one-by-one matrices as text: \<^verbatim>\<open>Tsim\<close>, and \<^verbatim>\<open>simulationEndTime\<close>, the product
  \<^verbatim>\<open>g_simulationStep * deltaT\<close> computed in \<^verbatim>\<open>BGFLOAT\<close>.
\<close>

definition simulationEndTime :: "BGFLOAT_arith \<Rightarrow> SimulationInfo \<Rightarrow> sim_state \<Rightarrow> BGFLOAT" where
  "simulationEndTime fl si s = bg_mul fl (bg_of_uint64 fl (g_simulationStep s)) (deltaT si)"

record state_out =
  out_Tsim :: string
  out_simulationEndTime :: string

definition saveState ::
  "BGFLOAT_arith \<Rightarrow> SimulationInfo \<Rightarrow> sim_state \<Rightarrow> sim_state \<times> state_out" where
  "saveState fl si s =
     (network_call SaveState s,
      \<lparr> out_Tsim = bg_print fl (epochDuration si),
        out_simulationEndTime = bg_print fl (simulationEndTime fl si s) \<rparr>)"

text \<open>
  A memory image: the tick counter it holds, and the part that belongs to the
  network.
\<close>

record 'n memory_image =
  image_tick :: "64 word"
  image_network :: 'n

text \<open>
  Modelled from the spec: \<^verbatim>\<open>Network::readSimMemory\<close> is missing from the sources.
  Section 6 of the specification: restoring from a checkpoint resumes the tick
  counter. What the network restores of its own state is not the simulator's
  business; the call is recorded.
\<close>

definition network_readSimMemory :: "'n memory_image \<Rightarrow> sim_state \<Rightarrow> sim_state" where
  "network_readSimMemory memory_in s =
     (network_call ReadSimMemory s)\<lparr>g_simulationStep := image_tick memory_in\<rparr>"

text \<open>\<^verbatim>\<open>Simulator::readMemory\<close> and \<^verbatim>\<open>Simulator::saveMemory\<close> hand over to the network.\<close>

definition readMemory :: "'n memory_image \<Rightarrow> sim_state \<Rightarrow> sim_state" where
  "readMemory memory_in s = network_readSimMemory memory_in s"

definition saveMemory :: "SimulationInfo \<Rightarrow> sim_state \<Rightarrow> sim_state" where
  "saveMemory si s = network_call (WriteSimMemory (maxSteps si)) s"

text \<open>
  The part of \<^verbatim>\<open>main\<close> that drives the simulator once the network exists: an optional
  \<^verbatim>\<open>readMemory\<close> (the image is there when \<^verbatim>\<open>fReadMemImage\<close> holds), \<^verbatim>\<open>simulate\<close>,
  \<^verbatim>\<open>saveState\<close>, an optional \<^verbatim>\<open>saveMemory\<close>.
\<close>

definition run_simulator ::
  "BGFLOAT_arith \<Rightarrow> SimulationInfo \<Rightarrow> 'n memory_image option \<Rightarrow> bool \<Rightarrow> sim_state \<Rightarrow>
     (sim_state \<times> state_out) option" where
  "run_simulator fl si memory_in fWriteMemImage s =
     (let s1 = (case memory_in of Some img \<Rightarrow> readMemory img s | None \<Rightarrow> s)
      in case simulate fl si s1 of
           None \<Rightarrow> None
         | Some s2 \<Rightarrow>
             (let (s3, out) = saveState fl si s2;
                  s4 = (if fWriteMemImage then saveMemory si s3 else s3)
              in Some (s4, out)))"

text \<open>The calls of one epoch with \<open>n\<close> ticks and epoch index \<open>k\<close>.\<close>

definition epoch_schedule :: "nat \<Rightarrow> int \<Rightarrow> network_call list" where
  "epoch_schedule n k = replicate n Advance @ [UpdateConnections k]"

section \<open>Loading the simulation parameters\<close>

text \<open>
  The parameter file is read with TinyXML, a library outside this repository. An
  element is modelled by its name, its attributes and its child elements. How an
  attribute's text converts to a value is TinyXML's business: the conversions are
  parameters of the model.
\<close>

datatype TiXmlElement =
  TiXmlElement (Value: string) (attributes: "(string \<times> string) list")
    (children: "TiXmlElement list")

definition FirstChildElement :: "TiXmlElement \<Rightarrow> string \<Rightarrow> TiXmlElement option" where
  "FirstChildElement e name = find (\<lambda>c. Value c = name) (children e)"

datatype 'a tixml_query = TIXML_SUCCESS 'a | TIXML_NO_ATTRIBUTE | TIXML_WRONG_TYPE

record tixml_conversions =
  to_int :: "string \<Rightarrow> int option"
  to_FLOAT :: "string \<Rightarrow> BGFLOAT option"
  to_long :: "string \<Rightarrow> int option"
  to_string :: "string \<Rightarrow> string option"

definition QueryAttribute ::
  "(string \<Rightarrow> 'a option) \<Rightarrow> TiXmlElement \<Rightarrow> string \<Rightarrow> 'a tixml_query" where
  "QueryAttribute conv e name =
     (case map_of (attributes e) name of
        None \<Rightarrow> TIXML_NO_ATTRIBUTE
      | Some str \<Rightarrow>
          (case conv str of None \<Rightarrow> TIXML_WRONG_TYPE | Some v \<Rightarrow> TIXML_SUCCESS v))"

text \<open>
  The global variables of the driver that \<^verbatim>\<open>LoadSimParms\<close> assigns. The fields
  \<open>g_maxFiringRate\<close>, \<open>g_maxSynapsesPerNeuron\<close> and \<open>g_seed\<close> are the globals
  \<^verbatim>\<open>maxFiringRate\<close>, \<^verbatim>\<open>maxSynapsesPerNeuron\<close> and \<^verbatim>\<open>seed\<close>.
\<close>

record globals =
  poolsize :: "nat \<Rightarrow> int"
  Tsim :: BGFLOAT
  numSims :: int
  g_maxFiringRate :: int
  g_maxSynapsesPerNeuron :: int
  g_seed :: int
  stateOutputFileName :: string

text \<open>
  The local state of \<^verbatim>\<open>LoadSimParms\<close>: the globals written so far, the flag
  \<^verbatim>\<open>fSet\<close> and the lines written to \<^verbatim>\<open>cerr\<close>.
\<close>

record load_state =
  vars :: globals
  fSet :: bool
  cerr :: "string list"

datatype KII_exception = KII_exception string

definition query_failed :: "string \<Rightarrow> load_state \<Rightarrow> load_state" where
  "query_failed msg st = st\<lparr>fSet := False, cerr := cerr st @ [msg]\<rparr>"

text \<open>
  One \<^verbatim>\<open>if (temp->Query...Attribute(name, &var) != TIXML_SUCCESS) { fSet = false; cerr << msg; }\<close>:
  on success the variable is assigned, otherwise it keeps its value.
\<close>

definition query ::
  "'a tixml_query \<Rightarrow> ('a \<Rightarrow> globals \<Rightarrow> globals) \<Rightarrow> string \<Rightarrow> load_state \<Rightarrow> load_state" where
  "query q assign msg st =
     (case q of
        TIXML_SUCCESS v \<Rightarrow> st\<lparr>vars := assign v (vars st)\<rparr>
      | TIXML_NO_ATTRIBUTE \<Rightarrow> query_failed msg st
      | TIXML_WRONG_TYPE \<Rightarrow> query_failed msg st)"

definition load_PoolSize :: "tixml_conversions \<Rightarrow> TiXmlElement \<Rightarrow> load_state \<Rightarrow> load_state" where
  "load_PoolSize tx parms st =
     (case FirstChildElement parms ''PoolSize'' of
        Some temp \<Rightarrow>
          (let st1 = query (QueryAttribute (to_int tx) temp ''x'')
                       (\<lambda>v g. g\<lparr>poolsize := (poolsize g)(0 := v)\<rparr>) ''error x'' st;
               st2 = query (QueryAttribute (to_int tx) temp ''y'')
                       (\<lambda>v g. g\<lparr>poolsize := (poolsize g)(1 := v)\<rparr>) ''error y'' st1;
               st3 = query (QueryAttribute (to_int tx) temp ''z'')
                       (\<lambda>v g. g\<lparr>poolsize := (poolsize g)(2 := v)\<rparr>) ''error z'' st2
           in st3)
      | None \<Rightarrow> query_failed ''missing PoolSize'' st)"

definition load_SimParams :: "tixml_conversions \<Rightarrow> TiXmlElement \<Rightarrow> load_state \<Rightarrow> load_state" where
  "load_SimParams tx parms st =
     (case FirstChildElement parms ''SimParams'' of
        Some temp \<Rightarrow>
          (let st1 = query (QueryAttribute (to_FLOAT tx) temp ''Tsim'')
                       (\<lambda>v g. g\<lparr>Tsim := v\<rparr>) ''error Tsim'' st;
               st2 = query (QueryAttribute (to_int tx) temp ''numSims'')
                       (\<lambda>v g. g\<lparr>numSims := v\<rparr>) ''error numSims'' st1;
               st3 = query (QueryAttribute (to_int tx) temp ''maxFiringRate'')
                       (\<lambda>v g. g\<lparr>g_maxFiringRate := v\<rparr>) ''error maxFiringRate'' st2;
               st4 = query (QueryAttribute (to_int tx) temp ''maxSynapsesPerNeuron'')
                       (\<lambda>v g. g\<lparr>g_maxSynapsesPerNeuron := v\<rparr>)
                       ''error maxSynapsesPerNeuron'' st3
           in st4)
      | None \<Rightarrow> query_failed ''missing SimParams'' st)"

definition load_OutputParams ::
  "tixml_conversions \<Rightarrow> TiXmlElement \<Rightarrow> load_state \<Rightarrow> load_state" where
  "load_OutputParams tx parms st =
     (case FirstChildElement parms ''OutputParams'' of
        Some temp \<Rightarrow>
          query (QueryAttribute (to_string tx) temp ''stateOutputFileName'')
            (\<lambda>v g. g\<lparr>stateOutputFileName := v\<rparr>) ''error stateOutputFileName'' st
      | None \<Rightarrow> query_failed ''missing OutputParams'' st)"

definition load_Seed :: "tixml_conversions \<Rightarrow> TiXmlElement \<Rightarrow> load_state \<Rightarrow> load_state" where
  "load_Seed tx parms st =
     (case FirstChildElement parms ''Seed'' of
        Some temp \<Rightarrow>
          query (QueryAttribute (to_long tx) temp ''value'')
            (\<lambda>v g. g\<lparr>g_seed := v\<rparr>) ''error value'' st
      | None \<Rightarrow> query_failed ''missing Seed'' st)"

text \<open>\<^verbatim>\<open>LoadSimParms\<close> up to its last statement: the four groups, in the source's order.\<close>

definition LoadSimParms_queries ::
  "tixml_conversions \<Rightarrow> TiXmlElement \<Rightarrow> globals \<Rightarrow> load_state" where
  "LoadSimParms_queries tx parms g =
     load_Seed tx parms
       (load_OutputParams tx parms
          (load_SimParams tx parms
             (load_PoolSize tx parms \<lparr> vars = g, fSet = True, cerr = [] \<rparr>)))"

text \<open>
  \<^verbatim>\<open>LoadSimParms\<close>: the exception is thrown once, after all queries, when any of them
  failed. The globals keep what the successful queries assigned, so the thrown
  result carries them too.
\<close>

definition LoadSimParms ::
  "tixml_conversions \<Rightarrow> TiXmlElement \<Rightarrow> globals \<Rightarrow> (KII_exception \<times> load_state) + load_state" where
  "LoadSimParms tx parms g =
     (let st = LoadSimParms_queries tx parms g
      in if \<not> fSet st
         then Inl (KII_exception
                ''Failed to initialize one or more simulation parameters; check XML'', st)
         else Inr st)"

text \<open>
  \<^verbatim>\<open>Model::readParameters\<close> is declared \<^verbatim>\<open>bool readParameters(TiXmlElement *source)\<close>; its
  body is not part of the driver. For the driver it either throws a
  \<^verbatim>\<open>KII_exception\<close> or returns a truth value.
\<close>

datatype readParameters_result = RP_throws KII_exception | RP_returns bool

text \<open>
  \<^verbatim>\<open>load_simulation_parameters\<close>. The document is \<open>None\<close> when \<^verbatim>\<open>LoadFile\<close> fails. The
  call \<^verbatim>\<open>model->readParameters(parms)\<close> is a statement of its own inside the
  \<^verbatim>\<open>try\<close> block: the value it returns is not used.
\<close>

definition load_simulation_parameters ::
  "tixml_conversions \<Rightarrow> (TiXmlElement \<Rightarrow> readParameters_result) \<Rightarrow> TiXmlElement option \<Rightarrow>
     globals \<Rightarrow> bool \<times> globals" where
  "load_simulation_parameters tx readParameters simDoc g =
     (case simDoc of
        None \<Rightarrow> (False, g)
      | Some doc \<Rightarrow>
          (case FirstChildElement doc ''SimParams'' of
             None \<Rightarrow> (False, g)
           | Some parms \<Rightarrow>
               (case LoadSimParms tx parms g of
                  Inl (e, st) \<Rightarrow> (False, vars st)
                | Inr st \<Rightarrow>
                    (case readParameters parms of
                       RP_throws e \<Rightarrow> (False, vars st)
                     | RP_returns b \<Rightarrow> (True, vars st)))))"

text \<open>
  The command line after \<^verbatim>\<open>parseCommandLine\<close> (\<open>None\<close> when parsing fails), and what
  \<^verbatim>\<open>main\<close> needs from outside: the arithmetic of \<^verbatim>\<open>BGFLOAT\<close>, the conversions of
  TinyXML, the model's \<^verbatim>\<open>readParameters\<close>, the parameter files, the memory images,
  and the constant \<^verbatim>\<open>DEFAULT_dt\<close> of \<^verbatim>\<open>Global.h\<close>.
\<close>

record command_line =
  stateoutfile :: string
  stateinfile :: string
  meminfile :: string
  memoutfile :: string

record 'n environment =
  arith :: BGFLOAT_arith
  conversions :: tixml_conversions
  model_readParameters :: "TiXmlElement \<Rightarrow> readParameters_result"
  files :: "string \<Rightarrow> TiXmlElement option"
  memory_files :: "string \<Rightarrow> 'n memory_image"
  DEFAULT_dt :: BGFLOAT

text \<open>
  \<^verbatim>\<open>main\<close>: the exit code and the simulator state at exit. Each early \<^verbatim>\<open>return -1\<close>
  leaves the simulator untouched. The \<^verbatim>\<open>int\<close> \<^verbatim>\<open>numSims\<close> is converted to \<^verbatim>\<open>BGFLOAT\<close>
  for \<^verbatim>\<open>makeSimulationInfo\<close>. The result is \<open>None\<close> where the program runs into
  undefined behaviour.
\<close>

definition main ::
  "'n environment \<Rightarrow> command_line option \<Rightarrow> globals \<Rightarrow> sim_state \<Rightarrow> (int \<times> sim_state) option" where
  "main env cl g s =
     (case cl of
        None \<Rightarrow> Some (- 1, s)
      | Some args \<Rightarrow>
          (case load_simulation_parameters (conversions env) (model_readParameters env)
                  (files env (stateinfile args))
                  (g\<lparr>stateOutputFileName := stateoutfile args\<rparr>) of
             (False, g') \<Rightarrow> Some (- 1, s)
           | (True, g') \<Rightarrow>
               (case makeSimulationInfo (poolsize g' 0) (poolsize g' 1) (Tsim g')
                       (bg_of_int (arith env) (numSims g')) (g_maxFiringRate g')
                       (g_maxSynapsesPerNeuron g') (DEFAULT_dt env) (g_seed g') of
                  None \<Rightarrow> None
                | Some si \<Rightarrow>
                    (let fReadMemImage = (meminfile args \<noteq> []);
                         fWriteMemImage = (memoutfile args \<noteq> []);
                         memory_in = (if fReadMemImage
                                      then Some (memory_files env (meminfile args))
                                      else None)
                     in case run_simulator (arith env) si memory_in fWriteMemImage s of
                          None \<Rightarrow> None
                        | Some (s', out) \<Rightarrow> Some (0, s')))))"

text \<open>Whether a query reported \<^verbatim>\<open>TIXML_SUCCESS\<close>.\<close>

fun succeeded :: "'a tixml_query \<Rightarrow> bool" where
  "succeeded (TIXML_SUCCESS v) = True"
| "succeeded TIXML_NO_ATTRIBUTE = False"
| "succeeded TIXML_WRONG_TYPE = False"

text \<open>
  The parameters \<^verbatim>\<open>LoadSimParms\<close> reads are all there: each of its four elements
  exists and each of its nine attribute queries succeeds.
\<close>

definition all_queries_succeed :: "tixml_conversions \<Rightarrow> TiXmlElement \<Rightarrow> bool" where
  "all_queries_succeed tx parms =
     ((case FirstChildElement parms ''PoolSize'' of
         None \<Rightarrow> False
       | Some temp \<Rightarrow>
           succeeded (QueryAttribute (to_int tx) temp ''x'')
           \<and> succeeded (QueryAttribute (to_int tx) temp ''y'')
           \<and> succeeded (QueryAttribute (to_int tx) temp ''z''))
      \<and> (case FirstChildElement parms ''SimParams'' of
         None \<Rightarrow> False
       | Some temp \<Rightarrow>
           succeeded (QueryAttribute (to_FLOAT tx) temp ''Tsim'')
           \<and> succeeded (QueryAttribute (to_int tx) temp ''numSims'')
           \<and> succeeded (QueryAttribute (to_int tx) temp ''maxFiringRate'')
           \<and> succeeded (QueryAttribute (to_int tx) temp ''maxSynapsesPerNeuron''))
      \<and> (case FirstChildElement parms ''OutputParams'' of
         None \<Rightarrow> False
       | Some temp \<Rightarrow>
           succeeded (QueryAttribute (to_string tx) temp ''stateOutputFileName''))
      \<and> (case FirstChildElement parms ''Seed'' of
         None \<Rightarrow> False
       | Some temp \<Rightarrow> succeeded (QueryAttribute (to_long tx) temp ''value'')))"

section \<open>Connection growth\<close>

text \<open>
  \<^verbatim>\<open>LIFModel::GrowthParams\<close> and the vectors and histories of
  \<^verbatim>\<open>LIFModel::Connections\<close> that the radius update touches, as \<^verbatim>\<open>LIFModel.h\<close>
  declares them. A history is the list of its rows, oldest first.
\<close>

record GrowthParams =
  epsilon :: real
  beta :: real
  rho :: real
  targetRate :: real
  maxRate :: real
  minRadius :: real
  startRadius :: real

record Connections =
  spikeCounts :: "int list"
  radii :: "real list"
  rates :: "real list"
  outgrowth :: "real list"
  deltaR :: "real list"
  radiiHistory :: "real list list"
  ratesHistory :: "real list list"

text \<open>
  Modelled from the spec: the body of the growth update (\<^verbatim>\<open>updateConnections\<close> of
  the LIF model) is missing from the sources; section 4.3 of the specification gives
  its steps. Step 2, the logistic outgrowth law for one neuron with firing rate \<open>r\<close>,
  with \<open>maxRate = targetRate / epsilon\<close>.
\<close>

definition outgrowth_law :: "GrowthParams \<Rightarrow> real \<Rightarrow> real" where
  "outgrowth_law p r =
     (let mr = targetRate p / epsilon p
      in 1 / (1 + exp ((epsilon p * mr - r) / beta p))
         - 1 / (1 + exp (epsilon p * mr / beta p)))"

text \<open>
  Modelled from the spec: step 3 of the growth update on its own, for any radii and
  any displacements \<open>deltaR\<close>: \<open>radius = max minRadius (radius + deltaR)\<close> for every
  neuron. The growth update below applies it to \<open>deltaR = outgrowth\<close>.
\<close>

definition update_radii :: "GrowthParams \<Rightarrow> real list \<Rightarrow> real list \<Rightarrow> real list" where
  "update_radii p rs ds = map (\<lambda>(r, d). max (minRadius p) (r + d)) (zip rs ds)"

text \<open>
  Modelled from the spec: steps 1, 2, 3 and 6 of the growth update, which is missing
  from the sources. Step 1: rate = spike count / epoch duration, appended to the rate
  history, spike counts reset. Step 2: outgrowth. Step 3: \<open>deltaR = outgrowth\<close> and
  \<open>radius = max minRadius (radius + deltaR)\<close>, appended to the radius history.
  Steps 4 and 5 (geometry, rewiring) read the radii and change distances, areas and
  synapses only; they are not modelled.
\<close>

definition updateConnections :: "GrowthParams \<Rightarrow> real \<Rightarrow> Connections \<Rightarrow> Connections" where
  "updateConnections p epochDur c =
     (let rates' = map (\<lambda>n. real_of_int n / epochDur) (spikeCounts c);
          outgrowth' = map (outgrowth_law p) rates';
          deltaR' = outgrowth';
          radii' = map (\<lambda>(r, d). max (minRadius p) (r + d)) (zip (radii c) deltaR')
      in c\<lparr> spikeCounts := map (\<lambda>n. 0) (spikeCounts c),
            rates := rates',
            outgrowth := outgrowth',
            deltaR := deltaR',
            radii := radii',
            ratesHistory := ratesHistory c @ [rates'],
            radiiHistory := radiiHistory c @ [radii'] \<rparr>)"

text \<open>
  Modelled from the spec: during an epoch the neuron update adds each neuron's spikes
  to its epoch spike count (section 4.1); the code that does so is missing from the
  sources. \<open>spikes\<close> holds the number of spikes of each neuron in the epoch.
\<close>

definition count_spikes :: "int list \<Rightarrow> Connections \<Rightarrow> Connections" where
  "count_spikes spikes c = c\<lparr>spikeCounts := map (\<lambda>(n, k). n + k) (zip (spikeCounts c) spikes)\<rparr>"

text \<open>
  Modelled from the spec: the epochs of a run as section 4.4 orders them, for the
  growth engine alone (the scheduler's call to it is in the sources, its body is
  not): one list of spike numbers per epoch, one growth update at the end of each
  epoch.
\<close>

fun growth_run :: "GrowthParams \<Rightarrow> real \<Rightarrow> int list list \<Rightarrow> Connections \<Rightarrow> Connections" where
  "growth_run p epochDur [] c = c"
| "growth_run p epochDur (spikes # epochs) c =
     growth_run p epochDur epochs (updateConnections p epochDur (count_spikes spikes c))"

text \<open>
  Modelled from the spec: the constructor of \<^verbatim>\<open>Connections\<close> is declared in
  \<^verbatim>\<open>LIFModel.h\<close>, its body is missing from the sources. The connections of \<open>n\<close>
  neurons before the first epoch: every radius is \<open>startRadius\<close>, and the histories
  have no rows yet (one row is appended per epoch).
\<close>

definition initial_connections :: "GrowthParams \<Rightarrow> nat \<Rightarrow> Connections" where
  "initial_connections p n =
     \<lparr> spikeCounts = replicate n 0,
       radii = replicate n (startRadius p),
       rates = replicate n 0,
       outgrowth = replicate n 0,
       deltaR = replicate n 0,
       radiiHistory = [],
       ratesHistory = [] \<rparr>"

section \<open>The network behind the calls\<close>

text \<open>
  Modelled from the spec: the network code is missing from the sources. The state of
  the network is the state of its neurons, synapses and random stream, kept abstract
  here, and the connections with their histories (section 3).
\<close>

record 'd network_state =
  dynamics :: 'd
  connections :: Connections

text \<open>
  What stays open in the model of the network: one tick of the neuron pass and the
  synapse pass at a given tick, which yields the new state of neurons and synapses
  and the spikes each neuron fired (sections 4.1, 4.2); the rewiring of the synapses
  from the new connections (section 4.3, steps 4 and 5); the growth parameters and
  the epoch duration.
\<close>

record 'd network_model =
  net_step :: "64 word \<Rightarrow> 'd \<Rightarrow> 'd \<times> int list"
  net_rewire :: "Connections \<Rightarrow> 'd \<Rightarrow> 'd"
  net_growth :: GrowthParams
  net_epochDuration :: real

text \<open>
  Modelled from the spec: \<^verbatim>\<open>Network::advance\<close> is missing from the sources. One tick
  at the tick counter \<open>tick\<close>; the spikes are added to the epoch spike counts
  (section 4.1).
\<close>

definition net_advance :: "'d network_model \<Rightarrow> 64 word \<Rightarrow> 'd network_state \<Rightarrow> 'd network_state" where
  "net_advance M tick n =
     (let (d', spikes) = net_step M tick (dynamics n)
      in \<lparr> dynamics = d', connections = count_spikes spikes (connections n) \<rparr>)"

text \<open>
  Modelled from the spec: \<^verbatim>\<open>Network::updateConnections\<close> is missing from the sources.
  Section 4.3: the growth update, then the rewiring. None of its steps reads the
  epoch index that the simulator hands over.
\<close>

definition net_updateConnections ::
  "'d network_model \<Rightarrow> int \<Rightarrow> 'd network_state \<Rightarrow> 'd network_state" where
  "net_updateConnections M currentStep n =
     (let c' = updateConnections (net_growth M) (net_epochDuration M) (connections n)
      in \<lparr> dynamics = net_rewire M c' (dynamics n), connections = c' \<rparr>)"

text \<open>
  The network together with the tick counter it reads, and the memory image it has
  written, if any.
\<close>

record 'd world =
  clock :: "64 word"
  net :: "'d network_state"
  memory_out :: "'d network_state memory_image option"

text \<open>
  Modelled from the spec: what one call of the simulator does to the network.
  \<^verbatim>\<open>advance\<close> is one tick, after which the simulator increments the tick counter;
  \<^verbatim>\<open>updateConnections\<close> is the growth update; \<^verbatim>\<open>writeSimMemory\<close> writes the checkpoint:
  the state of the network with its histories and the tick counter (section 6);
  \<^verbatim>\<open>readSimMemory\<close> restores from the checkpoint \<open>memory_in\<close>, resuming the tick
  counter. \<^verbatim>\<open>setup\<close>, \<^verbatim>\<open>finish\<close> and \<^verbatim>\<open>saveState\<close> leave the state as it is (in section
  4.4 the scheduler only steps and grows).
\<close>

fun perform ::
  "'d network_model \<Rightarrow> 'd network_state memory_image option \<Rightarrow> network_call \<Rightarrow> 'd world \<Rightarrow>
     'd world" where
  "perform M memory_in (Setup e m) w = w"
| "perform M memory_in Advance w =
     w\<lparr>net := net_advance M (clock w) (net w), clock := clock w + 1\<rparr>"
| "perform M memory_in (UpdateConnections k) w = w\<lparr>net := net_updateConnections M k (net w)\<rparr>"
| "perform M memory_in (Finish e m) w = w"
| "perform M memory_in SaveState w = w"
| "perform M memory_in ReadSimMemory w =
     (case memory_in of
        None \<Rightarrow> w
      | Some img \<Rightarrow> w\<lparr>net := image_network img, clock := image_tick img\<rparr>)"
| "perform M memory_in (WriteSimMemory m) w =
     w\<lparr>memory_out := Some \<lparr> image_tick = clock w, image_network = net w \<rparr>\<rparr>"

text \<open>The calls of a run, oldest first.\<close>

definition perform_all ::
  "'d network_model \<Rightarrow> 'd network_state memory_image option \<Rightarrow> network_call list \<Rightarrow> 'd world \<Rightarrow>
     'd world" where
  "perform_all M memory_in cs w = foldl (\<lambda>w c. perform M memory_in c w) w cs"

text \<open>
  One process: the driver runs the simulator from the state \<open>s\<close>, and the network,
  which starts as \<open>n\<close>, goes through the calls the simulator makes. The result is the
  simulator at exit, what \<^verbatim>\<open>saveState\<close> wrote, and the network at exit.
\<close>

definition process ::
  "BGFLOAT_arith \<Rightarrow> 'd network_model \<Rightarrow> SimulationInfo \<Rightarrow>
     'd network_state memory_image option \<Rightarrow> bool \<Rightarrow> sim_state \<Rightarrow> 'd network_state \<Rightarrow>
     (sim_state \<times> state_out \<times> 'd world) option" where
  "process fl M si memory_in fWriteMemImage s n =
     (case run_simulator fl si memory_in fWriteMemImage s of
        None \<Rightarrow> None
      | Some (s', out) \<Rightarrow>
          Some (s', out,
                perform_all M memory_in (drop (length (calls s)) (calls s'))
                  \<lparr> clock = g_simulationStep s, net = n, memory_out = None \<rparr>))"

text \<open>
  What is left of a process at exit: the tick counter, what \<^verbatim>\<open>saveState\<close> wrote, and
  the network with its histories and its connectivity.
\<close>

definition outcome ::
  "sim_state \<times> state_out \<times> 'd world \<Rightarrow> 64 word \<times> state_out \<times> 'd network_state" where
  "outcome r = (case r of (s, out, w) \<Rightarrow> (g_simulationStep s, out, net w))"

text \<open>
  A run in two processes. The driver writes the memory image after the last epoch of
  a run and nowhere else, so a checkpoint at the boundary of epoch \<open>k\<close> is what a
  first process configured for \<open>k\<close> epochs writes (\<^verbatim>\<open>fWriteMemImage\<close>). A second
  process, which starts from a simulator state \<open>s0\<close> and a network \<open>n0\<close> of its own,
  reads that image (\<^verbatim>\<open>fReadMemImage\<close>) and is configured for the remaining
  \<open>maxSteps - k\<close> epochs.
\<close>

definition checkpointed_run ::
  "BGFLOAT_arith \<Rightarrow> 'd network_model \<Rightarrow> SimulationInfo \<Rightarrow> int \<Rightarrow> sim_state \<Rightarrow>
     'd network_state \<Rightarrow> sim_state \<Rightarrow> 'd network_state \<Rightarrow>
     (sim_state \<times> state_out \<times> 'd world) option" where
  "checkpointed_run fl M si k s n s0 n0 =
     (case process fl M (si\<lparr>maxSteps := k\<rparr>) None True s n of
        None \<Rightarrow> None
      | Some (s1, out1, w1) \<Rightarrow>
          (case memory_out w1 of
             None \<Rightarrow> None
           | Some img \<Rightarrow>
               process fl M (si\<lparr>maxSteps := maxSteps si - k\<rparr>) (Some img) False s0 n0))"

section \<open>The delay queue of a synapse\<close>

text \<open>
  \<^verbatim>\<open>LIFModel.h\<close> fixes the width of the queue: the bits of a \<^verbatim>\<open>uint32_t\<close>.
\<close>

definition BYTES_OF_DELAYQUEUE :: nat where
  "BYTES_OF_DELAYQUEUE = 4 div 1"

definition LENGTH_OF_DELAYQUEUE :: nat where
  "LENGTH_OF_DELAYQUEUE = BYTES_OF_DELAYQUEUE * 8"

record synapse =
  delayQueue :: "32 word"
  total_delay :: nat

text \<open>
  Modelled from the spec: the synapse code is missing from the sources. Section 4.2:
  \<^verbatim>\<open>notify\<close> at tick \<open>now\<close> sets the bit at position
  \<open>(now + delay) mod bufferWidth\<close>.
\<close>

definition notify :: "nat \<Rightarrow> synapse \<Rightarrow> synapse" where
  "notify now syn =
     syn\<lparr>delayQueue :=
           set_bit ((now + total_delay syn) mod LENGTH_OF_DELAYQUEUE) (delayQueue syn)\<rparr>"

text \<open>
  Modelled from the spec: the synapse code is missing from the sources. Section 4.2:
  \<^verbatim>\<open>step\<close> at tick \<open>tick\<close> looks at the bit \<open>tick mod bufferWidth\<close>; when it is set,
  the bit is cleared and the charge is delivered. The truth value tells whether the
  charge was delivered.
\<close>

definition synapse_step :: "nat \<Rightarrow> synapse \<Rightarrow> synapse \<times> bool" where
  "synapse_step tick syn =
     (if bit (delayQueue syn) (tick mod LENGTH_OF_DELAYQUEUE)
      then (syn\<lparr>delayQueue := unset_bit (tick mod LENGTH_OF_DELAYQUEUE) (delayQueue syn)\<rparr>,
            True)
      else (syn, False))"

text \<open>
  Modelled from the spec: one tick as section 4.4 orders it, the neuron pass first
  (a spike of the source neuron notifies the synapse), then the synapse pass.
\<close>

definition synapse_tick :: "bool \<Rightarrow> nat \<Rightarrow> synapse \<Rightarrow> synapse \<times> bool" where
  "synapse_tick spike tick syn = synapse_step tick (if spike then notify tick syn else syn)"

text \<open>
  Modelled from the spec: consecutive ticks of one synapse from tick \<open>tick\<close> on, the
  tick counter moving by one per tick. \<open>spikes\<close> tells for each tick whether the
  source neuron fires; the result lists for each tick whether the charge was
  delivered.
\<close>

fun synapse_run :: "nat \<Rightarrow> bool list \<Rightarrow> synapse \<Rightarrow> bool list \<times> synapse" where
  "synapse_run tick [] syn = ([], syn)"
| "synapse_run tick (spike # spikes) syn =
     (let (syn1, delivered) = synapse_tick spike tick syn;
          (ds, syn2) = synapse_run (Suc tick) spikes syn1
      in (delivered # ds, syn2))"


section \<open>Example inputs\<close>

text \<open>
  An arithmetic for the examples. It computes quotients and products exactly and
  prints the values that occur in the examples as \<^verbatim>\<open>operator<<\<close> does (six significant
  digits). Floating-point arithmetic in single and in double precision returns the
  same results wherever the operands and the exact result are representable.
\<close>

fun exact_div :: "BGFLOAT \<Rightarrow> BGFLOAT \<Rightarrow> BGFLOAT" where
  "exact_div (Finite a) (Finite b) =
     (if b \<noteq> 0 then Finite (a / b)
      else if a = 0 then NaN else if 0 < a then PlusInfinity else MinusInfinity)"
| "exact_div a b = NaN"

fun exact_mul :: "BGFLOAT \<Rightarrow> BGFLOAT \<Rightarrow> BGFLOAT" where
  "exact_mul (Finite a) (Finite b) = Finite (a * b)"
| "exact_mul a b = NaN"

definition example_print :: "BGFLOAT \<Rightarrow> string" where
  "example_print x =
     (if x = Finite 0 then ''0''
      else if x = Finite 1 then ''1''
      else if x = Finite 2 then ''2''
      else if x = Finite (1 / 2048) then ''0.000488281''
      else if x = Finite (5 / 16384) then ''0.000305176''
      else [])"

definition exact_arith :: BGFLOAT_arith where
  "exact_arith =
     \<lparr> bg_div = exact_div, bg_mul = exact_mul,
       bg_of_uint64 = (\<lambda>w. Finite (real (unat w))),
       bg_of_int = (\<lambda>n. Finite (real_of_int n)),
       bg_print = example_print \<rparr>"

text \<open>
  The simulator before its first tick, and configurations. \<open>tiny_info\<close> is the one of
  \<^verbatim>\<open>validation/test-tiny.xml\<close> (a 2 by 2 pool, one epoch of 1 s) with a tick of 0.1 ms;
  the tick length is taken at its nominal value, and the quotient of 1 by it is 10000
  in single and in double precision as well. \<open>fractional_info\<close> has two epochs of two
  and a half ticks; its durations are binary fractions, so that floating-point
  arithmetic is exact on them.
\<close>

definition initial_state :: sim_state where
  "initial_state = \<lparr> g_simulationStep = 0, calls = [] \<rparr>"

definition tiny_info :: SimulationInfo where
  "tiny_info =
     \<lparr> totalNeurons = 4, epochDuration = Finite 1, maxSteps = 1, maxFiringRate = 200,
       maxSynapsesPerNeuron = 200, width = 2, height = 2, deltaT = Finite (1 / 10000),
       seed = 1 \<rparr>"

definition fractional_info :: SimulationInfo where
  "fractional_info =
     \<lparr> totalNeurons = 4, epochDuration = Finite (5 / 16384), maxSteps = 2,
       maxFiringRate = 200, maxSynapsesPerNeuron = 200, width = 2, height = 2,
       deltaT = Finite (1 / 8192), seed = 1 \<rparr>"

text \<open>The same configuration with no epochs at all (\<^verbatim>\<open>numSims="0"\<close>).\<close>

definition no_epochs_info :: SimulationInfo where
  "no_epochs_info = fractional_info\<lparr>maxSteps := 0\<rparr>"

text \<open>Two epochs of one tick each.\<close>

definition unit_info :: SimulationInfo where
  "unit_info =
     \<lparr> totalNeurons = 4, epochDuration = Finite 1, maxSteps = 2, maxFiringRate = 200,
       maxSynapsesPerNeuron = 200, width = 2, height = 2, deltaT = Finite 1, seed = 1 \<rparr>"

text \<open>
  The parameter file \<^verbatim>\<open>validation/test-tiny.xml\<close> without its \<^verbatim>\<open>Iinject\<close> element,
  which is one of the parameters of the LIF model. The comments and the text of the
  layout lists are left out.
\<close>

definition tiny_SimParams :: TiXmlElement where
  "tiny_SimParams =
     TiXmlElement ''SimParams'' []
       [TiXmlElement ''LsmParams'' [(''frac_EXC'', ''0.75''), (''starter_neurons'', ''0.25'')] [],
        TiXmlElement ''PoolSize'' [(''x'', ''2''), (''y'', ''2''), (''z'', ''1'')] [],
        TiXmlElement ''Inoise'' [(''min'', ''1.0e-09''), (''max'', ''1.5e-09'')] [],
        TiXmlElement ''Vthresh'' [(''min'', ''15.0e-03''), (''max'', ''15.0e-03'')] [],
        TiXmlElement ''Vresting'' [(''min'', ''0.0''), (''max'', ''0.0'')] [],
        TiXmlElement ''Vreset'' [(''min'', ''13.5e-03''), (''max'', ''13.5e-03'')] [],
        TiXmlElement ''Vinit'' [(''min'', ''13.0e-03''), (''max'', ''13.0e-03'')] [],
        TiXmlElement ''starter_vthresh'' [(''min'', ''13.565e-3''), (''max'', ''13.655e-3'')] [],
        TiXmlElement ''starter_vreset'' [(''min'', ''13.0e-3''), (''max'', ''13.0e-3'')] [],
        TiXmlElement ''GrowthParams''
          [(''epsilon'', ''0.60''), (''beta'', ''0.10''), (''rho'', ''0.0001''),
           (''targetRate'', ''1.9''), (''minRadius'', ''0.1''), (''startRadius'', ''0.4'')] [],
        TiXmlElement ''SimParams''
          [(''Tsim'', ''1.0''), (''numSims'', ''1''), (''maxFiringRate'', ''200''),
           (''maxSynapsesPerNeuron'', ''200'')] [],
        TiXmlElement ''OutputParams'' [(''stateOutputFileName'', ''test-tiny-out.xml'')] [],
        TiXmlElement ''Seed'' [(''value'', ''1'')] [],
        TiXmlElement ''FixedLayout'' []
          [TiXmlElement ''A'' [] [], TiXmlElement ''I'' [] []]]"

definition tiny_doc :: TiXmlElement where
  "tiny_doc = TiXmlElement [] [] [tiny_SimParams]"

text \<open>Conversions that know the attribute texts of that file.\<close>

definition tiny_to_int :: "string \<Rightarrow> int option" where
  "tiny_to_int str =
     (if str = ''1'' then Some 1 else if str = ''2'' then Some 2
      else if str = ''200'' then Some 200 else None)"

definition tiny_to_FLOAT :: "string \<Rightarrow> BGFLOAT option" where
  "tiny_to_FLOAT str = (if str = ''1.0'' then Some (Finite 1) else None)"

definition tiny_conversions :: tixml_conversions where
  "tiny_conversions =
     \<lparr> to_int = tiny_to_int, to_FLOAT = tiny_to_FLOAT, to_long = tiny_to_int,
       to_string = Some \<rparr>"

text \<open>
  An environment in which the model reports, through the truth value it returns,
  that it did not get all of its parameters.
\<close>

definition tiny_env :: "unit environment" where
  "tiny_env =
     \<lparr> arith = exact_arith,
       conversions = tiny_conversions,
       model_readParameters = (\<lambda>parms. RP_returns False),
       files = (\<lambda>name. if name = ''test-tiny.xml'' then Some tiny_doc else None),
       memory_files = (\<lambda>name. \<lparr> image_tick = 0, image_network = () \<rparr>),
       DEFAULT_dt = Finite (1 / 10000) \<rparr>"

definition tiny_args :: command_line where
  "tiny_args =
     \<lparr> stateoutfile = [], stateinfile = ''test-tiny.xml'', meminfile = [], memoutfile = [] \<rparr>"

definition zero_globals :: globals where
  "zero_globals =
     \<lparr> poolsize = (\<lambda>i. 0), Tsim = Finite 0, numSims = 0, g_maxFiringRate = 0,
       g_maxSynapsesPerNeuron = 0, g_seed = 0, stateOutputFileName = [] \<rparr>"

text \<open>
  The growth parameters of \<^verbatim>\<open>validation/test-tiny.xml\<close>, and two epochs of spike
  numbers for two neurons.
\<close>

definition tiny_growth :: GrowthParams where
  "tiny_growth =
     \<lparr> epsilon = 6 / 10, beta = 1 / 10, rho = 1 / 10000, targetRate = 19 / 10,
       maxRate = (19 / 10) / (6 / 10), minRadius = 1 / 10, startRadius = 4 / 10 \<rparr>"

definition two_epochs :: "int list list" where
  "two_epochs = [[3, 0], [0, 5]]"

text \<open>
  Growth parameters whose start radius lies below the minimal radius, and an epoch in
  which no neuron fires.
\<close>

definition low_start_growth :: GrowthParams where
  "low_start_growth = tiny_growth\<lparr>startRadius := 1 / 20\<rparr>"

definition silent_epoch :: "int list list" where
  "silent_epoch = [[0, 0]]"

text \<open>
  A network for the examples: the state of neurons and synapses is the number of
  ticks made; neuron 0 fires in the odd ticks, neuron 1 in every tick; rewiring
  leaves that state alone.
\<close>

definition parity_model :: "nat network_model" where
  "parity_model =
     \<lparr> net_step = (\<lambda>tick d. (Suc d, [int (unat tick mod 2), 1])),
       net_rewire = (\<lambda>c d. d),
       net_growth = tiny_growth,
       net_epochDuration = 1 \<rparr>"

definition fresh_network :: "nat network_state" where
  "fresh_network = \<lparr> dynamics = 0, connections = initial_connections tiny_growth 2 \<rparr>"

text \<open>
  A synapse with an empty queue and a delay of two ticks, and a source neuron that
  fires once, in the first of 35 ticks.
\<close>

definition idle_synapse :: synapse where
  "idle_synapse = \<lparr> delayQueue = 0, total_delay = 2 \<rparr>"

definition one_spike :: "bool list" where
  "one_spike = True # replicate 34 False"

text \<open>A synapse whose delay is as long as the queue is wide.\<close>

definition wide_synapse :: synapse where
  "wide_synapse = \<lparr> delayQueue = 0, total_delay = 32 \<rparr>"

section \<open>Properties of the scheduler\<close>

text \<open>
  The defining equations of the two loops are applied step by step, not as rewrite
  rules.
\<close>

declare advance_loop.simps [simp del]
declare simulate_loop.simps [simp del]

text \<open>Below another word, the increment of a tick counter does not wrap.\<close>

lemma unat_inc_below:
  fixes g :: "64 word"
  assumes "g < e"
  shows "unat (g + 1) = Suc (unat g)"
proof -
  from assms have "unat g < unat e"
    by (simp add: word_less_nat_alt)
  moreover have "unat e < 2 ^ 64"
    using unsigned_less [of e] by simp
  ultimately have "unat g + 1 < 2 ^ 64"
    by simp
  then show ?thesis
    by (simp add: unat_word_ariths)
qed

lemma advance_loop_exact:
  "g_simulationStep s \<le> endStep \<Longrightarrow>
   advance_loop endStep s =
     s\<lparr>g_simulationStep := endStep,
       calls := calls s @ replicate (unat endStep - unat (g_simulationStep s)) Advance\<rparr>"
proof (induction endStep s rule: advance_loop.induct)
  case (1 endStep s)
  show ?case
  proof (cases "g_simulationStep s < endStep")
    case True
    let ?s' = "(network_call Advance s)\<lparr>g_simulationStep := g_simulationStep s + 1\<rparr>"
    from True have suc: "unat (g_simulationStep s + 1) = Suc (unat (g_simulationStep s))"
      by (rule unat_inc_below)
    from True have lt: "unat (g_simulationStep s) < unat endStep"
      by (simp add: word_less_nat_alt)
    from True have le': "g_simulationStep ?s' \<le> endStep"
      by (simp add: inc_le)
    have rep: "replicate (unat endStep - unat (g_simulationStep s)) Advance =
                 Advance # replicate (unat endStep - Suc (unat (g_simulationStep s))) Advance"
      using lt by (cases "unat endStep - unat (g_simulationStep s)") (simp_all add: Suc_diff_Suc)
    have "advance_loop endStep s = advance_loop endStep ?s'"
      using True by (subst advance_loop.simps) simp
    also have "\<dots> = ?s'\<lparr>g_simulationStep := endStep,
        calls := calls ?s' @ replicate (unat endStep - unat (g_simulationStep ?s')) Advance\<rparr>"
      using "1.IH" [OF True le'] .
    also have "\<dots> = s\<lparr>g_simulationStep := endStep,
        calls := calls s @ replicate (unat endStep - unat (g_simulationStep s)) Advance\<rparr>"
      by (simp add: network_call_def suc rep)
    finally show ?thesis .
  next
    case False
    with "1.prems" have "g_simulationStep s = endStep"
      by simp
    then show ?thesis
      by (subst advance_loop.simps) simp
  qed
qed

text \<open>A cast that is defined gives the truncated value of a quotient above -1.\<close>

lemma static_cast_uint64_Some:
  assumes "static_cast_uint64 q = Some t"
  shows "\<exists>x. q = Finite x \<and> - 1 < x \<and> x < 2 ^ 64 \<and> 0 \<le> trunc x \<and> unat t = nat (trunc x)"
proof (cases q)
  case (Finite x)
  with assms have range: "- 1 < x" "x < 2 ^ 64" and t: "t = word_of_int (trunc x)"
    by (simp_all split: if_splits)
  have nn: "0 \<le> trunc x"
  proof (cases "x < 0")
    case True
    have "x \<le> real_of_int \<lceil>x\<rceil>"
      by (rule le_of_int_ceiling)
    with range(1) have "- 1 < real_of_int \<lceil>x\<rceil>"
      by (rule less_le_trans)
    then have "real_of_int (- 1) < real_of_int \<lceil>x\<rceil>"
      by simp
    then have "- 1 < \<lceil>x\<rceil>"
      by (simp only: of_int_less_iff)
    then have c0: "0 \<le> \<lceil>x\<rceil>"
      by linarith
    from True have "trunc x = \<lceil>x\<rceil>"
      by (simp add: trunc_def)
    with c0 show ?thesis
      by (simp only:)
  next
    case False
    then show ?thesis
      by (simp add: trunc_def)
  qed
  have "real_of_int (trunc x) < real_of_int (2 ^ 64)"
  proof (cases "x < 0")
    case True
    then have "trunc x \<le> 0"
      by (simp add: trunc_def ceiling_le_iff)
    then have "real_of_int (trunc x) \<le> 0"
      by simp
    then show ?thesis
      by simp
  next
    case False
    then have "real_of_int (trunc x) \<le> x"
      by (simp add: trunc_def)
    with range(2) show ?thesis
      by simp
  qed
  then have "trunc x < 2 ^ 64"
    by (simp only: of_int_less_iff)
  with nn have small: "nat (trunc x) < 2 ^ 64"
    by (simp only: nat_less_iff) simp
  have "unat (word_of_nat (nat (trunc x)) :: 64 word) = nat (trunc x) mod 2 ^ LENGTH(64)"
    by (rule unat_of_nat)
  also have "\<dots> = nat (trunc x)"
    using small by (simp only: len_of_numeral_defs) simp
  finally have u: "unat (word_of_nat (nat (trunc x)) :: 64 word) = nat (trunc x)" .
  have w: "(word_of_int (trunc x) :: 64 word) = word_of_nat (nat (trunc x))"
    using nn by (rule word_of_int_nat)
  from Finite range nn u show ?thesis
    unfolding t w by simp
qed (use assms in simp_all)

lemma ticksPerEpoch_maxSteps [simp]:
  "ticksPerEpoch fl (si\<lparr>maxSteps := m\<rparr>) = ticksPerEpoch fl si"
  by (simp add: ticksPerEpoch_def)

lemma advanceUntilGrowth_maxSteps [simp]:
  "advanceUntilGrowth fl (si\<lparr>maxSteps := m\<rparr>) k s = advanceUntilGrowth fl si k s"
  by (simp add: advanceUntilGrowth_def)

text \<open>One epoch, all epochs from \<^verbatim>\<open>currentStep\<close> on, and a whole run, when the cast is
  defined and the tick counter has room.\<close>

lemma advanceUntilGrowth_exact:
  assumes "ticksPerEpoch fl si = Some t"
    and "unat (g_simulationStep s) + unat t < 2 ^ 64"
  shows "advanceUntilGrowth fl si k s =
     Some (s\<lparr>g_simulationStep := g_simulationStep s + t,
             calls := calls s @ replicate (unat t) Advance\<rparr>)"
proof -
  let ?e = "g_simulationStep s + t"
  from assms(2) have u: "unat ?e = unat (g_simulationStep s) + unat t"
    by (simp add: unat_word_ariths)
  then have "g_simulationStep s \<le> ?e"
    by (simp add: word_le_nat_alt)
  then have "advance_loop ?e s =
     s\<lparr>g_simulationStep := ?e,
       calls := calls s @ replicate (unat ?e - unat (g_simulationStep s)) Advance\<rparr>"
    by (rule advance_loop_exact)
  with u assms(1) show ?thesis
    by (simp add: advanceUntilGrowth_def ticksPerEpoch_def Let_def)
qed

lemma simulate_loop_done:
  "maxSteps si < c \<Longrightarrow> simulate_loop fl si c s = Some s"
  by (subst simulate_loop.simps) simp

lemma simulate_loop_exact:
  "ticksPerEpoch fl si = Some t \<Longrightarrow>
   unat (g_simulationStep s) + nat (maxSteps si + 1 - c) * unat t < 2 ^ 64 \<Longrightarrow>
   simulate_loop fl si c s =
     Some (s\<lparr>g_simulationStep := g_simulationStep s + word_of_nat (nat (maxSteps si + 1 - c)) * t,
             calls := calls s @ concat (map (epoch_schedule (unat t)) [c..maxSteps si])\<rparr>)"
proof (induction fl si c s rule: simulate_loop.induct)
  case (1 fl si c s)
  show ?case
  proof (cases "c \<le> maxSteps si")
    case True
    then have n: "nat (maxSteps si + 1 - c) = Suc (nat (maxSteps si + 1 - (c + 1)))"
      by simp
    from "1.prems"(2) have fit1: "unat (g_simulationStep s) + unat t < 2 ^ 64"
      unfolding n by simp
    let ?a = "s\<lparr>g_simulationStep := g_simulationStep s + t,
                 calls := calls s @ replicate (unat t) Advance\<rparr>"
    let ?s1 = "network_call (UpdateConnections c) ?a"
    have a: "advanceUntilGrowth fl si c s = Some ?a"
      using "1.prems"(1) fit1 by (rule advanceUntilGrowth_exact)
    have s1: "?s1 = s\<lparr>g_simulationStep := g_simulationStep s + t,
                     calls := calls s @ epoch_schedule (unat t) c\<rparr>"
      by (simp add: network_call_def epoch_schedule_def)
    have g1: "unat (g_simulationStep ?s1) = unat (g_simulationStep s) + unat t"
      using fit1 by (simp add: network_call_def unat_word_ariths)
    have fit2: "unat (g_simulationStep ?s1) + nat (maxSteps si + 1 - (c + 1)) * unat t < 2 ^ 64"
      using "1.prems"(2) unfolding n g1 by (simp add: algebra_simps)
    have "simulate_loop fl si c s = simulate_loop fl si (c + 1) ?s1"
      using True a by (subst simulate_loop.simps) simp
    also have "\<dots> = Some (?s1\<lparr>g_simulationStep :=
         g_simulationStep ?s1 + word_of_nat (nat (maxSteps si + 1 - (c + 1))) * t,
       calls := calls ?s1 @ concat (map (epoch_schedule (unat t)) [c + 1..maxSteps si])\<rparr>)"
      using "1.IH" [OF True a "1.prems"(1) fit2] .
    also have "\<dots> = Some (s\<lparr>g_simulationStep :=
         g_simulationStep s + word_of_nat (nat (maxSteps si + 1 - c)) * t,
       calls := calls s @ concat (map (epoch_schedule (unat t)) [c..maxSteps si])\<rparr>)"
      unfolding n s1 using True by (simp add: upto_rec1 [of c "maxSteps si"] algebra_simps)
    finally show ?thesis .
  next
    case False
    then show ?thesis
      by (subst simulate_loop.simps) simp
  qed
qed

lemma simulate_exact:
  assumes "1 \<le> maxSteps si \<Longrightarrow> ticksPerEpoch fl si = Some t"
    and "unat (g_simulationStep s) + nat (maxSteps si) * unat t < 2 ^ 64"
  shows "simulate fl si s =
     Some (s\<lparr>g_simulationStep := g_simulationStep s + word_of_nat (nat (maxSteps si)) * t,
             calls := calls s @ [Setup (epochDuration si) (maxSteps si)]
                      @ concat (map (epoch_schedule (unat t)) [1..maxSteps si])
                      @ [Finish (epochDuration si) (maxSteps si)]\<rparr>)"
proof (cases "1 \<le> maxSteps si")
  case True
  let ?s0 = "network_call (Setup (epochDuration si) (maxSteps si)) s"
  have "unat (g_simulationStep ?s0) + nat (maxSteps si + 1 - 1) * unat t < 2 ^ 64"
    using assms(2) by (simp add: network_call_def)
  with assms(1) [OF True] have "simulate_loop fl si 1 ?s0 =
     Some (?s0\<lparr>g_simulationStep :=
               g_simulationStep ?s0 + word_of_nat (nat (maxSteps si + 1 - 1)) * t,
             calls := calls ?s0 @ concat (map (epoch_schedule (unat t)) [1..maxSteps si])\<rparr>)"
    by (rule simulate_loop_exact)
  then show ?thesis
    by (simp add: simulate_def network_call_def)
next
  case False
  then have "simulate_loop fl si 1 (network_call (Setup (epochDuration si) (maxSteps si)) s) =
             Some (network_call (Setup (epochDuration si) (maxSteps si)) s)"
    by (intro simulate_loop_done) simp
  with False show ?thesis
    by (simp add: simulate_def network_call_def)
qed

text \<open>The tick counter counts the network advances, whatever the configuration.\<close>

lemma advance_loop_counts:
  "unat (g_simulationStep (advance_loop endStep s)) + count_list (calls s) Advance =
   unat (g_simulationStep s) + count_list (calls (advance_loop endStep s)) Advance"
proof (induction endStep s rule: advance_loop.induct)
  case (1 endStep s)
  show ?case
  proof (cases "g_simulationStep s < endStep")
    case True
    let ?s' = "(network_call Advance s)\<lparr>g_simulationStep := g_simulationStep s + 1\<rparr>"
    from True have suc: "unat (g_simulationStep s + 1) = Suc (unat (g_simulationStep s))"
      by (rule unat_inc_below)
    have step: "advance_loop endStep s = advance_loop endStep ?s'"
      using True by (subst advance_loop.simps) simp
    from "1.IH" [OF True] show ?thesis
      unfolding step by (simp add: suc network_call_def)
  next
    case False
    then have "advance_loop endStep s = s"
      by (subst advance_loop.simps) simp
    then show ?thesis
      by simp
  qed
qed

lemma simulate_loop_counts:
  "simulate_loop fl si c s = Some s' \<Longrightarrow>
   unat (g_simulationStep s') + count_list (calls s) Advance =
   unat (g_simulationStep s) + count_list (calls s') Advance"
proof (induction fl si c s rule: simulate_loop.induct)
  case (1 fl si c s)
  show ?case
  proof (cases "c \<le> maxSteps si")
    case True
    with "1.prems" obtain a where a: "advanceUntilGrowth fl si c s = Some a"
      and rest: "simulate_loop fl si (c + 1) (network_call (UpdateConnections c) a) = Some s'"
      by (subst (asm) simulate_loop.simps) (auto split: option.splits)
    from a obtain t where a': "a = advance_loop (g_simulationStep s + t) s"
      by (auto simp: advanceUntilGrowth_def Let_def split: option.splits)
    have ca: "unat (g_simulationStep a) + count_list (calls s) Advance =
              unat (g_simulationStep s) + count_list (calls a) Advance"
      unfolding a' by (rule advance_loop_counts)
    let ?s1 = "network_call (UpdateConnections c) a"
    have s1: "g_simulationStep ?s1 = g_simulationStep a"
      "count_list (calls ?s1) Advance = count_list (calls a) Advance"
      by (simp_all add: network_call_def)
    from "1.IH" [OF True a rest] ca show ?thesis
      unfolding s1 by simp
  next
    case False
    with "1.prems" have "s' = s"
      by (subst (asm) simulate_loop.simps) simp
    then show ?thesis
      by simp
  qed
qed

text \<open>Epoch \<open>n\<close> of a run begins in the state \<open>epoch_start\<close> describes.\<close>

lemma simulate_loop_split:
  assumes "c \<le> n" and "n \<le> maxSteps si + 1"
  shows "simulate_loop fl si c s =
     (case simulate_loop fl (si\<lparr>maxSteps := n - 1\<rparr>) c s of
        None \<Rightarrow> None
      | Some s1 \<Rightarrow> simulate_loop fl si n s1)"
  using assms
proof (induction "nat (n - c)" arbitrary: c s)
  case 0
  then have "c = n"
    by simp
  then have "simulate_loop fl (si\<lparr>maxSteps := n - 1\<rparr>) c s = Some s"
    by (intro simulate_loop_done) simp
  with \<open>c = n\<close> show ?case
    by simp
next
  case (Suc d)
  then have lt: "c < n" and d: "d = nat (n - (c + 1))"
    by simp_all
  let ?si = "si\<lparr>maxSteps := n - 1\<rparr>"
  show ?case
  proof (cases "advanceUntilGrowth fl si c s")
    case None
    then have "simulate_loop fl si c s = None"
      using lt Suc.prems by (subst simulate_loop.simps) simp
    moreover have "simulate_loop fl ?si c s = None"
      using lt None by (subst simulate_loop.simps) simp
    ultimately show ?thesis
      by simp
  next
    case (Some a)
    let ?s1 = "network_call (UpdateConnections c) a"
    have "simulate_loop fl si c s = simulate_loop fl si (c + 1) ?s1"
      using lt Suc.prems Some by (subst simulate_loop.simps) simp
    also have "\<dots> = (case simulate_loop fl ?si (c + 1) ?s1 of
                        None \<Rightarrow> None | Some s1 \<Rightarrow> simulate_loop fl si n s1)"
      using lt Suc.prems by (intro Suc.hyps(1) [OF d]) simp_all
    also have "simulate_loop fl ?si (c + 1) ?s1 = simulate_loop fl ?si c s"
      using lt Some by (subst (2) simulate_loop.simps) simp
    finally show ?thesis .
  qed
qed

text \<open>Adding \<open>k\<close> epochs of \<open>t\<close> ticks to a counter that has room for them.\<close>

lemma unat_add_mult:
  fixes g t :: "64 word"
  shows "unat g + k * unat t < 2 ^ 64 \<Longrightarrow> unat (g + word_of_nat k * t) = unat g + k * unat t"
proof (induction k)
  case 0
  then show ?case by simp
next
  case (Suc k)
  then have ih: "unat (g + word_of_nat k * t) = unat g + k * unat t"
    by simp
  have e: "g + word_of_nat (Suc k) * t = (g + word_of_nat k * t) + t"
    by (simp add: algebra_simps)
  have "unat ((g + word_of_nat k * t) + t) =
          (unat (g + word_of_nat k * t) + unat t) mod 2 ^ LENGTH(64)"
    by (rule unat_word_ariths(1))
  also have "\<dots> = unat g + Suc k * unat t"
    using Suc.prems by (simp add: ih)
  finally show ?case
    unfolding e .
qed

lemma simulate_loop_ticks:
  assumes "ticksPerEpoch fl si = Some t"
    and "unat (g_simulationStep s) + nat (maxSteps si + 1 - c) * unat t < 2 ^ 64"
  shows "\<exists>s'. simulate_loop fl si c s = Some s' \<and>
           unat (g_simulationStep s') =
             unat (g_simulationStep s) + nat (maxSteps si + 1 - c) * unat t"
  using assms by (simp add: simulate_loop_exact unat_add_mult)

text \<open>The example configurations, evaluated.\<close>

lemma example_fields:
  "maxSteps tiny_info = 1" "maxSteps fractional_info = 2" "maxSteps unit_info = 2"
  "maxSteps no_epochs_info = 0"
  "epochDuration tiny_info = Finite 1" "epochDuration fractional_info = Finite (5 / 16384)"
  "epochDuration unit_info = Finite 1" "epochDuration no_epochs_info = Finite (5 / 16384)"
  "deltaT tiny_info = Finite (1 / 10000)" "deltaT fractional_info = Finite (1 / 8192)"
  "deltaT unit_info = Finite 1" "deltaT no_epochs_info = Finite (1 / 8192)"
  by (simp_all add: tiny_info_def fractional_info_def unit_info_def no_epochs_info_def)

lemma example_quotients:
  "bg_div exact_arith (epochDuration tiny_info) (deltaT tiny_info) = Finite 10000"
  "bg_div exact_arith (epochDuration fractional_info) (deltaT fractional_info) = Finite (5 / 2)"
  "bg_div exact_arith (epochDuration no_epochs_info) (deltaT no_epochs_info) = Finite (5 / 2)"
  "bg_div exact_arith (epochDuration unit_info) (deltaT unit_info) = Finite 1"
  by (simp_all add: example_fields exact_arith_def)

lemma example_ticks:
  "ticksPerEpoch exact_arith tiny_info = Some 10000"
  "ticksPerEpoch exact_arith fractional_info = Some 2"
  "ticksPerEpoch exact_arith no_epochs_info = Some 2"
  "ticksPerEpoch exact_arith unit_info = Some 1"
  by (simp_all add: ticksPerEpoch_def example_quotients trunc_def)

lemma five_halves_not_integral: "(5 / 2 :: real) \<notin> \<int>"
proof
  assume "(5 / 2 :: real) \<in> \<int>"
  then have "frac (5 / 2 :: real) = 0"
    by (simp add: frac_eq_0_iff)
  then show False
    by (simp add: frac_def)
qed

lemma replicate_two: "replicate 2 x = [x, x]"
  by (simp add: numeral_2_eq_2)

text \<open>
  Claim C1. A run over \<open>N = maxSteps\<close> epochs calls the network in this order:
  \<^verbatim>\<open>setup\<close>; then, for each epoch index 1, ..., \<open>N\<close> in turn, \<open>t\<close> times
  \<^verbatim>\<open>advance\<close> followed by exactly one \<^verbatim>\<open>updateConnections\<close> with that index; then
  \<^verbatim>\<open>finish\<close>. So there are exactly \<open>N\<close> iterations, no growth update falls inside an
  epoch, and the run ends after the \<open>N\<close>-th growth update. Here \<open>t\<close> is
  \<open>ticksPerEpoch\<close>, the tick number of an epoch as the code computes it; the cast
  that yields it has to be defined when there is an epoch to run, the tick counter
  has to have room for the run, and \<open>maxSteps\<close> has to stay below \<open>INT_MAX\<close>.
\<close>

theorem simulate_runs_epochs:
  assumes "0 < N \<Longrightarrow> ticksPerEpoch fl si = Some t"
    and "maxSteps si = int N"
    and "maxSteps si < INT_MAX"
    and "unat (g_simulationStep s) + N * unat t < 2 ^ 64"
  shows "\<exists>s'. simulate fl si s = Some s'
           \<and> calls s' =
               calls s @ [Setup (epochDuration si) (maxSteps si)]
               @ concat (map (\<lambda>k. replicate (unat t) Advance @ [UpdateConnections k])
                           [1..int N])
               @ [Finish (epochDuration si) (maxSteps si)]
           \<and> length [1..int N] = N"
proof -
  from assms(1,2) have cast: "1 \<le> maxSteps si \<Longrightarrow> ticksPerEpoch fl si = Some t"
    by simp
  from assms(2,4) have
    "unat (g_simulationStep s) + nat (maxSteps si) * unat t < 2 ^ 64"
    by simp
  with cast have "simulate fl si s =
     Some (s\<lparr>g_simulationStep := g_simulationStep s + word_of_nat (nat (maxSteps si)) * t,
             calls := calls s @ [Setup (epochDuration si) (maxSteps si)]
                      @ concat (map (epoch_schedule (unat t)) [1..maxSteps si])
                      @ [Finish (epochDuration si) (maxSteps si)]\<rparr>)"
    by (rule simulate_exact)
  moreover have "epoch_schedule (unat t) =
                 (\<lambda>k. replicate (unat t) Advance @ [UpdateConnections k])"
    by (rule ext) (simp add: epoch_schedule_def)
  ultimately show ?thesis
    using assms(2) by simp
qed

theorem simulate_runs_epochs_witness:
  "ticksPerEpoch exact_arith tiny_info = Some 10000
   \<and> maxSteps tiny_info = int 1 \<and> maxSteps tiny_info < INT_MAX
   \<and> unat (g_simulationStep initial_state) + 1 * unat (10000 :: 64 word) < 2 ^ 64
   \<and> map_option calls (simulate exact_arith tiny_info initial_state) =
       Some (Setup (Finite 1) 1 # replicate 10000 Advance
             @ [UpdateConnections 1, Finish (Finite 1) 1])"
proof -
  have h1: "0 < (1::nat) \<Longrightarrow> ticksPerEpoch exact_arith tiny_info = Some 10000"
    by (simp add: example_ticks)
  have h2: "maxSteps tiny_info = int 1"
    by (simp add: example_fields)
  have h3: "maxSteps tiny_info < INT_MAX"
    by (simp add: example_fields INT_MAX_def)
  have h4: "unat (g_simulationStep initial_state) + 1 * unat (10000 :: 64 word) < 2 ^ 64"
    by (simp add: initial_state_def)
  from simulate_runs_epochs [OF h1 h2 h3 h4] obtain s' where
    "simulate exact_arith tiny_info initial_state = Some s'"
    "calls s' =
       calls initial_state @ [Setup (epochDuration tiny_info) (maxSteps tiny_info)]
       @ concat (map (\<lambda>k. replicate (unat (10000 :: 64 word)) Advance @ [UpdateConnections k])
                   [1..int 1])
       @ [Finish (epochDuration tiny_info) (maxSteps tiny_info)]"
    by blast
  then have "map_option calls (simulate exact_arith tiny_info initial_state) =
       Some (Setup (Finite 1) 1 # replicate 10000 Advance
             @ [UpdateConnections 1, Finish (Finite 1) 1])"
    by (simp add: initial_state_def example_fields)
  with h2 h3 h4 example_ticks(1) show ?thesis
    by blast
qed

text \<open>The state in which epoch \<open>n\<close> begins, when the counter has room.\<close>

lemma epoch_start_exact:
  assumes "1 < n \<Longrightarrow> ticksPerEpoch fl si = Some t"
    and "1 \<le> n"
    and "unat (g_simulationStep s) + nat (n - 1) * unat t < 2 ^ 64"
  shows "epoch_start fl si n s =
     Some (s\<lparr>g_simulationStep := g_simulationStep s + word_of_nat (nat (n - 1)) * t,
             calls := calls s @ [Setup (epochDuration si) (maxSteps si)]
                      @ concat (map (epoch_schedule (unat t)) [1..n - 1])\<rparr>)"
proof (cases "1 < n")
  case True
  let ?s0 = "network_call (Setup (epochDuration si) (maxSteps si)) s"
  let ?si = "si\<lparr>maxSteps := n - 1\<rparr>"
  have c: "ticksPerEpoch fl ?si = Some t"
    using assms(1) [OF True] by simp
  have "unat (g_simulationStep ?s0) + nat (maxSteps ?si + 1 - 1) * unat t < 2 ^ 64"
    using assms(3) by (simp add: network_call_def)
  with c have "simulate_loop fl ?si 1 ?s0 =
     Some (?s0\<lparr>g_simulationStep :=
               g_simulationStep ?s0 + word_of_nat (nat (maxSteps ?si + 1 - 1)) * t,
             calls := calls ?s0 @ concat (map (epoch_schedule (unat t)) [1..maxSteps ?si])\<rparr>)"
    by (rule simulate_loop_exact)
  then show ?thesis
    by (simp add: epoch_start_def network_call_def)
next
  case False
  with assms(2) have n: "n = 1"
    by simp
  have "simulate_loop fl (si\<lparr>maxSteps := n - 1\<rparr>) 1
          (network_call (Setup (epochDuration si) (maxSteps si)) s) =
        Some (network_call (Setup (epochDuration si) (maxSteps si)) s)"
    unfolding n by (intro simulate_loop_done) simp
  then show ?thesis
    by (simp add: epoch_start_def network_call_def n)
qed

text \<open>
  Claim C2. In a run started at tick 0, epoch \<open>n\<close> (1-based) begins in the state
  \<open>epoch_start fl si n s\<close>: the rest of the run continues from there with
  \<^verbatim>\<open>currentStep\<close> = \<open>n\<close>. In that state the tick counter is exactly
  \<open>(n - 1) * t\<close>, where \<open>t\<close> is the tick number of an epoch, and it equals the number
  of network advances made so far: the counter moves by one per advance and does not
  drift across epochs.
\<close>

theorem tick_grid_no_drift:
  assumes "1 < n \<Longrightarrow> ticksPerEpoch fl si = Some t"
    and "g_simulationStep s = 0"
    and "1 \<le> n" and "n \<le> maxSteps si + 1"
    and "maxSteps si < INT_MAX"
    and "nat (n - 1) * unat t < 2 ^ 64"
  shows "\<exists>e. epoch_start fl si n s = Some e
           \<and> simulate_loop fl si 1 (network_call (Setup (epochDuration si) (maxSteps si)) s) =
               simulate_loop fl si n e
           \<and> unat (g_simulationStep e) = nat (n - 1) * unat t
           \<and> count_list (calls e) Advance =
               count_list (calls s) Advance + unat (g_simulationStep e)"
proof -
  let ?s0 = "network_call (Setup (epochDuration si) (maxSteps si)) s"
  let ?e = "s\<lparr>g_simulationStep := g_simulationStep s + word_of_nat (nat (n - 1)) * t,
              calls := calls s @ [Setup (epochDuration si) (maxSteps si)]
                       @ concat (map (epoch_schedule (unat t)) [1..n - 1])\<rparr>"
  have fit: "unat (g_simulationStep s) + nat (n - 1) * unat t < 2 ^ 64"
    using assms(2,6) by simp
  have e: "epoch_start fl si n s = Some ?e"
    using assms(1,3) fit by (rule epoch_start_exact)
  have "simulate_loop fl si 1 ?s0 =
     (case simulate_loop fl (si\<lparr>maxSteps := n - 1\<rparr>) 1 ?s0 of
        None \<Rightarrow> None
      | Some s1 \<Rightarrow> simulate_loop fl si n s1)"
    using assms(3,4) by (rule simulate_loop_split)
  then have split: "simulate_loop fl si 1 ?s0 = simulate_loop fl si n ?e"
    using e by (simp add: epoch_start_def)
  have ticks: "unat (g_simulationStep ?e) = nat (n - 1) * unat t"
    using unat_add_mult [OF fit] assms(2) by simp
  have s0: "g_simulationStep ?s0 = 0" "count_list (calls ?s0) Advance = count_list (calls s) Advance"
    using assms(2) by (simp_all add: network_call_def)
  have "unat (g_simulationStep ?e) + count_list (calls ?s0) Advance =
        unat (g_simulationStep ?s0) + count_list (calls ?e) Advance"
    using e unfolding epoch_start_def by (rule simulate_loop_counts)
  then have "count_list (calls ?e) Advance =
             count_list (calls s) Advance + unat (g_simulationStep ?e)"
    unfolding s0 by simp
  with e split ticks show ?thesis
    by blast
qed

theorem tick_grid_no_drift_witness:
  "ticksPerEpoch exact_arith fractional_info = Some 2
   \<and> g_simulationStep initial_state = 0 \<and> (1::int) \<le> 2 \<and> 2 \<le> maxSteps fractional_info + 1
   \<and> maxSteps fractional_info < INT_MAX
   \<and> nat (2 - 1) * unat (2 :: 64 word) < 2 ^ 64
   \<and> map_option (\<lambda>e. unat (g_simulationStep e))
       (epoch_start exact_arith fractional_info 2 initial_state) = Some 2
   \<and> map_option (\<lambda>e. count_list (calls e) Advance)
       (epoch_start exact_arith fractional_info 2 initial_state) = Some 2"
proof -
  have h0: "(1::int) < 2 \<Longrightarrow> ticksPerEpoch exact_arith fractional_info = Some 2"
    by (simp add: example_ticks)
  have h1: "g_simulationStep initial_state = 0"
    by (simp add: initial_state_def)
  have h2: "(1::int) \<le> 2"
    by simp
  have h3: "2 \<le> maxSteps fractional_info + 1"
    by (simp add: example_fields)
  have h4: "maxSteps fractional_info < INT_MAX"
    by (simp add: example_fields INT_MAX_def)
  have h5: "nat (2 - 1) * unat (2 :: 64 word) < 2 ^ 64"
    by simp
  from tick_grid_no_drift [OF h0 h1 h2 h3 h4 h5] obtain e where
    e: "epoch_start exact_arith fractional_info 2 initial_state = Some e"
    and g: "unat (g_simulationStep e) = nat (2 - 1) * unat (2 :: 64 word)"
    and c: "count_list (calls e) Advance =
            count_list (calls initial_state) Advance + unat (g_simulationStep e)"
    by blast
  from g have g2: "unat (g_simulationStep e) = 2"
    by simp
  from c g2 have c2: "count_list (calls e) Advance = 2"
    by (simp add: initial_state_def)
  from e g2 c2 h1 h2 h3 h4 h5 example_ticks(2) show ?thesis
    by simp
qed

text \<open>
  The tick number of an epoch when the quotient is a non-negative number \<open>q\<close> whose
  integral part fits 64 bits: the cast is defined and yields \<open>\<lfloor>q\<rfloor>\<close>.
\<close>

lemma ticksPerEpoch_floor:
  assumes "bg_div fl (epochDuration si) (deltaT si) = Finite q"
    and "0 \<le> q"
    and "nat \<lfloor>q\<rfloor> < 2 ^ 64"
  shows "ticksPerEpoch fl si = Some (word_of_nat (nat \<lfloor>q\<rfloor>))"
    and "unat (word_of_nat (nat \<lfloor>q\<rfloor>) :: 64 word) = nat \<lfloor>q\<rfloor>"
proof -
  from assms(2) have nn: "0 \<le> \<lfloor>q\<rfloor>"
    by simp
  with assms(3) have "\<lfloor>q\<rfloor> < 2 ^ 64"
    by (simp add: nat_less_iff)
  then have "\<lfloor>q\<rfloor> + 1 \<le> 2 ^ 64"
    by simp
  then have "real_of_int (\<lfloor>q\<rfloor> + 1) \<le> real_of_int (2 ^ 64)"
    by (simp only: of_int_le_iff)
  moreover have "q < real_of_int (\<lfloor>q\<rfloor> + 1)"
    by linarith
  ultimately have "q < 2 ^ 64"
    by simp
  moreover have tr: "trunc q = \<lfloor>q\<rfloor>"
    using assms(2) by (simp add: trunc_def)
  ultimately have cast: "static_cast_uint64 (Finite q) = Some (word_of_int \<lfloor>q\<rfloor>)"
    using assms(2) by simp
  have w: "(word_of_int \<lfloor>q\<rfloor> :: 64 word) = word_of_nat (nat \<lfloor>q\<rfloor>)"
    using nn by (rule word_of_int_nat)
  from cast show "ticksPerEpoch fl si = Some (word_of_nat (nat \<lfloor>q\<rfloor>))"
    unfolding w by (simp only: ticksPerEpoch_def assms(1))
  from static_cast_uint64_Some [OF cast]
  have "unat (word_of_int \<lfloor>q\<rfloor> :: 64 word) = nat (trunc q)"
    by blast
  then show "unat (word_of_nat (nat \<lfloor>q\<rfloor>) :: 64 word) = nat \<lfloor>q\<rfloor>"
    unfolding w tr .
qed

text \<open>
  Claim C5, as amended. The scheduler has no integrality check and no error path.
  Let \<open>q\<close> be the quotient \<^verbatim>\<open>epochDuration / deltaT\<close> as the \<^verbatim>\<open>BGFLOAT\<close> division
  yields it, a non-negative number. Whether or not \<open>q\<close> is an integer, one epoch
  advances the network exactly \<open>\<lfloor>q\<rfloor>\<close> times and the tick counter by as much, as
  long as the counter has room: the fraction of a tick is dropped.
\<close>

theorem advanceUntilGrowth_truncates:
  assumes "bg_div fl (epochDuration si) (deltaT si) = Finite q"
    and "0 \<le> q"
    and "unat (g_simulationStep s) + nat \<lfloor>q\<rfloor> < 2 ^ 64"
  shows "advanceUntilGrowth fl si k s =
     Some (s\<lparr>g_simulationStep := g_simulationStep s + word_of_nat (nat \<lfloor>q\<rfloor>),
             calls := calls s @ replicate (nat \<lfloor>q\<rfloor>) Advance\<rparr>)"
proof -
  from assms(3) have small: "nat \<lfloor>q\<rfloor> < 2 ^ 64"
    by simp
  note cast = ticksPerEpoch_floor(1) [OF assms(1,2) small]
  note u = ticksPerEpoch_floor(2) [OF assms(1,2) small]
  from assms(3) have
    "unat (g_simulationStep s) + unat (word_of_nat (nat \<lfloor>q\<rfloor>) :: 64 word) < 2 ^ 64"
    by (simp only: u)
  with cast have "advanceUntilGrowth fl si k s =
     Some (s\<lparr>g_simulationStep := g_simulationStep s + word_of_nat (nat \<lfloor>q\<rfloor>),
             calls := calls s
                      @ replicate (unat (word_of_nat (nat \<lfloor>q\<rfloor>) :: 64 word)) Advance\<rparr>)"
    by (rule advanceUntilGrowth_exact)
  then show ?thesis
    unfolding u .
qed

theorem advanceUntilGrowth_truncates_witness:
  "bg_div exact_arith (epochDuration fractional_info) (deltaT fractional_info) = Finite (5 / 2)
   \<and> (0::real) \<le> 5 / 2
   \<and> unat (g_simulationStep initial_state) + nat \<lfloor>5 / 2 :: real\<rfloor> < 2 ^ 64
   \<and> (5 / 2 :: real) \<notin> \<int>
   \<and> advanceUntilGrowth exact_arith fractional_info 1 initial_state =
       Some \<lparr> g_simulationStep = 2, calls = [Advance, Advance] \<rparr>"
proof -
  note h1 = example_quotients(2)
  have h2: "(0::real) \<le> 5 / 2"
    by simp
  have h3: "unat (g_simulationStep initial_state) + nat \<lfloor>5 / 2 :: real\<rfloor> < 2 ^ 64"
    by (simp add: initial_state_def)
  have "advanceUntilGrowth exact_arith fractional_info 1 initial_state =
       Some \<lparr> g_simulationStep = 2, calls = [Advance, Advance] \<rparr>"
    using advanceUntilGrowth_truncates [OF h1 h2 h3, of 1]
    by (simp add: initial_state_def replicate_two)
  with h1 h2 h3 five_halves_not_integral show ?thesis
    by blast
qed

text \<open>
  Claim C5 as stated fails: with an epoch of two and a half ticks the run is not
  refused. It makes two network advances per epoch and runs to its end.
\<close>

theorem non_integral_epoch_runs:
  "bg_div exact_arith (epochDuration fractional_info) (deltaT fractional_info) = Finite (5 / 2)
   \<and> (5 / 2 :: real) \<notin> \<int>
   \<and> map_option calls (simulate exact_arith fractional_info initial_state) =
       Some [Setup (Finite (5 / 16384)) 2, Advance, Advance, UpdateConnections 1,
             Advance, Advance, UpdateConnections 2, Finish (Finite (5 / 16384)) 2]"
proof -
  have c: "1 \<le> maxSteps fractional_info \<Longrightarrow> ticksPerEpoch exact_arith fractional_info = Some 2"
    by (simp add: example_ticks)
  have "unat (g_simulationStep initial_state)
        + nat (maxSteps fractional_info) * unat (2 :: 64 word) < 2 ^ 64"
    by (simp add: example_fields initial_state_def)
  with c have "simulate exact_arith fractional_info initial_state =
     Some (initial_state\<lparr>g_simulationStep :=
         g_simulationStep initial_state + word_of_nat (nat (maxSteps fractional_info)) * 2,
       calls := calls initial_state
                @ [Setup (epochDuration fractional_info) (maxSteps fractional_info)]
                @ concat (map (epoch_schedule (unat (2 :: 64 word)))
                            [1..maxSteps fractional_info])
                @ [Finish (epochDuration fractional_info) (maxSteps fractional_info)]\<rparr>)"
    by (rule simulate_exact)
  then have "map_option calls (simulate exact_arith fractional_info initial_state) =
       Some [Setup (Finite (5 / 16384)) 2, Advance, Advance, UpdateConnections 1,
             Advance, Advance, UpdateConnections 2, Finish (Finite (5 / 16384)) 2]"
    by (simp add: example_fields initial_state_def epoch_schedule_def replicate_two upto_rec1)
  with example_quotients(2) five_halves_not_integral show ?thesis
    by blast
qed

section \<open>Properties of a whole process\<close>

lemma run_simulator_exact:
  assumes "1 \<le> maxSteps si \<Longrightarrow> ticksPerEpoch fl si = Some t"
    and "s1 = (case memory_in of Some img \<Rightarrow> readMemory img s | None \<Rightarrow> s)"
    and "unat (g_simulationStep s1) + nat (maxSteps si) * unat t < 2 ^ 64"
  shows "run_simulator fl si memory_in w s =
     Some (s1\<lparr>g_simulationStep := g_simulationStep s1 + word_of_nat (nat (maxSteps si)) * t,
              calls := calls s1 @ [Setup (epochDuration si) (maxSteps si)]
                       @ concat (map (epoch_schedule (unat t)) [1..maxSteps si])
                       @ [Finish (epochDuration si) (maxSteps si), SaveState]
                       @ (if w then [WriteSimMemory (maxSteps si)] else [])\<rparr>,
           \<lparr> out_Tsim = bg_print fl (epochDuration si),
             out_simulationEndTime =
               bg_print fl (bg_mul fl
                 (bg_of_uint64 fl (g_simulationStep s1 + word_of_nat (nat (maxSteps si)) * t))
                 (deltaT si)) \<rparr>)"
proof -
  from assms(1,3) have "simulate fl si s1 =
     Some (s1\<lparr>g_simulationStep := g_simulationStep s1 + word_of_nat (nat (maxSteps si)) * t,
             calls := calls s1 @ [Setup (epochDuration si) (maxSteps si)]
                      @ concat (map (epoch_schedule (unat t)) [1..maxSteps si])
                      @ [Finish (epochDuration si) (maxSteps si)]\<rparr>)"
    by (rule simulate_exact)
  then show ?thesis
    unfolding run_simulator_def assms(2) [symmetric]
    by (simp add: saveState_def simulationEndTime_def saveMemory_def network_call_def)
qed





section \<open>Properties of the checkpoint\<close>

lemma perform_all_Nil [simp]: "perform_all M m [] w = w"
  by (simp add: perform_all_def)

lemma perform_all_Cons [simp]:
  "perform_all M m (c # cs) w = perform_all M m cs (perform M m c w)"
  by (simp add: perform_all_def)

lemma perform_all_append [simp]:
  "perform_all M m (cs @ ds) w = perform_all M m ds (perform_all M m cs w)"
  by (simp add: perform_all_def)

text \<open>
  The effect of an epoch on the network depends neither on the epoch index handed to
  the growth update nor on the memory image of the process.
\<close>

lemma perform_all_Advances:
  "perform_all M m (replicate j Advance) w = perform_all M None (replicate j Advance) w"
  by (induction j arbitrary: w) simp_all

lemma perform_all_epoch:
  "perform_all M m (epoch_schedule t k) w = perform_all M None (epoch_schedule t 0) w"
  by (simp add: epoch_schedule_def perform_all_Advances [of M m] net_updateConnections_def)

lemma perform_all_epochs:
  "perform_all M m (concat (map (epoch_schedule t) ks)) w =
   ((perform_all M None (epoch_schedule t 0)) ^^ length ks) w"
proof (induction ks arbitrary: w)
  case Nil
  show ?case by simp
next
  case (Cons k ks)
  show ?case
    by (simp add: Cons.IH perform_all_epoch [of M m] funpow_swap1)
qed




text \<open>A process that reads no memory image, when the counter has room.\<close>

lemma process_fresh_exact:
  assumes "1 \<le> maxSteps si \<longrightarrow> ticksPerEpoch fl si = Some t"
    and "unat (g_simulationStep s) + nat (maxSteps si) * unat t < 2 ^ 64"
    and "wE = ((perform_all M None (epoch_schedule (unat t) 0)) ^^ nat (maxSteps si))
                \<lparr> clock = g_simulationStep s, net = n, memory_out = None \<rparr>"
  shows "\<exists>s' out. process fl M si None w s n =
           Some (s', out,
                 if w then wE\<lparr>memory_out :=
                              Some \<lparr> image_tick = clock wE, image_network = net wE \<rparr>\<rparr>
                 else wE)
         \<and> g_simulationStep s' = g_simulationStep s + word_of_nat (nat (maxSteps si)) * t
         \<and> out = \<lparr> out_Tsim = bg_print fl (epochDuration si),
                    out_simulationEndTime =
                      bg_print fl (bg_mul fl (bg_of_uint64 fl (g_simulationStep s')) (deltaT si)) \<rparr>"
proof -
  have s1: "s = (case (None :: 'a network_state memory_image option) of
                   Some img \<Rightarrow> readMemory img s | None \<Rightarrow> s)"
    by simp
  from assms(1) have c: "1 \<le> maxSteps si \<Longrightarrow> ticksPerEpoch fl si = Some t"
    by blast
  from run_simulator_exact [OF c s1 assms(2), of w] show ?thesis
    unfolding process_def assms(3)
    by (simp add: perform_all_epochs)
qed





text \<open>
  What the restore is for: a second process that runs the remaining epoch without
  reading the image ends with one row of history, made at tick 0.
\<close>

lemma unrestored_run_differs:
  "map_option (\<lambda>r. (fst (outcome r), ratesHistory (connections (snd (snd (outcome r))))))
     (process exact_arith parity_model (unit_info\<lparr>maxSteps := 1\<rparr>) None False initial_state
        fresh_network) =
   Some (1, [[0, 1]])"
proof -
  let ?si = "unit_info\<lparr>maxSteps := 1\<rparr>"
  define wE where
    "wE = ((perform_all parity_model None (epoch_schedule (unat (1 :: 64 word)) 0))
             ^^ nat (maxSteps ?si))
            \<lparr> clock = g_simulationStep initial_state, net = fresh_network,
              memory_out = None \<rparr>"
  have c: "1 \<le> maxSteps ?si \<longrightarrow> ticksPerEpoch exact_arith ?si = Some 1"
    by (simp add: example_ticks)
  have fit: "unat (g_simulationStep initial_state)
             + nat (maxSteps ?si) * unat (1 :: 64 word) < 2 ^ 64"
    by (simp add: initial_state_def)
  have rows: "ratesHistory (connections (net wE)) = [[0, 1]]"
    unfolding wE_def
    by (simp add: initial_state_def numeral_2_eq_2 epoch_schedule_def
          net_advance_def net_updateConnections_def parity_model_def fresh_network_def
          updateConnections_def count_spikes_def initial_connections_def Let_def)
  from process_fresh_exact [OF c fit wE_def, of False]
  obtain s' out where
    "process exact_arith parity_model ?si None False initial_state fresh_network =
       Some (s', out, wE)"
    and "g_simulationStep s' =
           g_simulationStep initial_state + word_of_nat (nat (maxSteps ?si)) * 1"
    by auto
  then show ?thesis
    by (simp add: outcome_def rows initial_state_def)
qed

text \<open>
  The second process numbers its epochs from 1 again: \<^verbatim>\<open>Simulator::simulate\<close> starts
  \<^verbatim>\<open>currentStep\<close> at 1 in every process. The growth update of the network above does
  not read that index.
\<close>

lemma resumed_run_numbers_epochs_from_one:
  "map_option (\<lambda>r. calls (fst r))
     (checkpointed_run exact_arith parity_model unit_info 1 initial_state fresh_network
        initial_state fresh_network) =
   Some [ReadSimMemory, Setup (Finite 1) 1, Advance, UpdateConnections 1, Finish (Finite 1) 1,
         SaveState]"
proof -
  let ?si1 = "unit_info\<lparr>maxSteps := 1\<rparr>"
  let ?si2 = "unit_info\<lparr>maxSteps := maxSteps unit_info - 1\<rparr>"
  have c1: "1 \<le> maxSteps ?si1 \<Longrightarrow> ticksPerEpoch exact_arith ?si1 = Some 1"
    by (simp add: example_ticks)
  have c2: "1 \<le> maxSteps ?si2 \<Longrightarrow> ticksPerEpoch exact_arith ?si2 = Some 1"
    by (simp add: example_ticks)
  have s1: "initial_state = (case (None :: nat network_state memory_image option) of
              Some img \<Rightarrow> readMemory img initial_state | None \<Rightarrow> initial_state)"
    by simp
  have fit1: "unat (g_simulationStep initial_state) + nat (maxSteps ?si1) * unat (1 :: 64 word)
              < 2 ^ 64"
    by (simp add: initial_state_def)
  have run1: "run_simulator exact_arith ?si1 (None :: nat network_state memory_image option)
                True initial_state =
     Some (\<lparr> g_simulationStep = 1,
             calls = [Setup (Finite 1) 1, Advance, UpdateConnections 1, Finish (Finite 1) 1,
                      SaveState, WriteSimMemory 1] \<rparr>,
           \<lparr> out_Tsim = ''1'', out_simulationEndTime = ''1'' \<rparr>)"
    using run_simulator_exact [OF c1 s1 fit1, of True]
    by (simp add: initial_state_def example_fields epoch_schedule_def exact_arith_def
          example_print_def)
  have run2: "run_simulator exact_arith ?si2 (Some img) False initial_state =
     Some (\<lparr> g_simulationStep = 2,
             calls = [ReadSimMemory, Setup (Finite 1) 1, Advance, UpdateConnections 1,
                      Finish (Finite 1) 1, SaveState] \<rparr>,
           \<lparr> out_Tsim = ''1'', out_simulationEndTime = ''2'' \<rparr>)"
    if "image_tick img = 1" for img :: "nat network_state memory_image"
  proof -
    have s2: "readMemory img initial_state =
                (case Some img of Some img \<Rightarrow> readMemory img initial_state | None \<Rightarrow> initial_state)"
      by simp
    have fit2: "unat (g_simulationStep (readMemory img initial_state))
                + nat (maxSteps ?si2) * unat (1 :: 64 word) < 2 ^ 64"
      by (simp add: readMemory_def network_readSimMemory_def that example_fields)
    from run_simulator_exact [OF c2 s2 fit2, of False] show ?thesis
      by (simp add: initial_state_def example_fields epoch_schedule_def exact_arith_def
            example_print_def readMemory_def network_readSimMemory_def network_call_def that)
  qed
  have start: "calls initial_state = []" "g_simulationStep initial_state = 0"
    by (simp_all add: initial_state_def)
  show ?thesis
    by (simp add: checkpointed_run_def process_def run1 run2 start epoch_schedule_def)
qed

section \<open>Properties of the parameter load\<close>

text \<open>The flag \<^verbatim>\<open>fSet\<close> only ever goes from true to false.\<close>

lemma fSet_query [simp]: "fSet (query q assign msg st) = (fSet st \<and> succeeded q)"
  by (cases q) (simp_all add: query_def query_failed_def)

lemma fSet_query_failed [simp]: "fSet (query_failed msg st) = False"
  by (simp add: query_failed_def)

lemma fSet_load_PoolSize:
  "fSet (load_PoolSize tx parms st) =
     (fSet st \<and>
      (case FirstChildElement parms ''PoolSize'' of
         None \<Rightarrow> False
       | Some temp \<Rightarrow>
           succeeded (QueryAttribute (to_int tx) temp ''x'')
           \<and> succeeded (QueryAttribute (to_int tx) temp ''y'')
           \<and> succeeded (QueryAttribute (to_int tx) temp ''z'')))"
  by (simp add: load_PoolSize_def Let_def split: option.split)

lemma fSet_load_SimParams:
  "fSet (load_SimParams tx parms st) =
     (fSet st \<and>
      (case FirstChildElement parms ''SimParams'' of
         None \<Rightarrow> False
       | Some temp \<Rightarrow>
           succeeded (QueryAttribute (to_FLOAT tx) temp ''Tsim'')
           \<and> succeeded (QueryAttribute (to_int tx) temp ''numSims'')
           \<and> succeeded (QueryAttribute (to_int tx) temp ''maxFiringRate'')
           \<and> succeeded (QueryAttribute (to_int tx) temp ''maxSynapsesPerNeuron'')))"
  by (simp add: load_SimParams_def Let_def split: option.split)

lemma fSet_load_OutputParams:
  "fSet (load_OutputParams tx parms st) =
     (fSet st \<and>
      (case FirstChildElement parms ''OutputParams'' of
         None \<Rightarrow> False
       | Some temp \<Rightarrow>
           succeeded (QueryAttribute (to_string tx) temp ''stateOutputFileName'')))"
  by (simp add: load_OutputParams_def split: option.split)

lemma fSet_load_Seed:
  "fSet (load_Seed tx parms st) =
     (fSet st \<and>
      (case FirstChildElement parms ''Seed'' of
         None \<Rightarrow> False
       | Some temp \<Rightarrow> succeeded (QueryAttribute (to_long tx) temp ''value'')))"
  by (simp add: load_Seed_def split: option.split)

lemma fSet_LoadSimParms_queries:
  "fSet (LoadSimParms_queries tx parms g) = all_queries_succeed tx parms"
  unfolding LoadSimParms_queries_def all_queries_succeed_def
    fSet_load_Seed fSet_load_OutputParams fSet_load_SimParams fSet_load_PoolSize
  by auto

text \<open>
  The part of the parameter input that \<^verbatim>\<open>LoadSimParms\<close> itself reads: one missing
  element or one failed attribute query makes it throw, once, after all queries;
  the load fails and \<^verbatim>\<open>main\<close> returns -1 without touching the simulator.
\<close>

lemma LoadSimParms_throws_iff:
  "(\<exists>e st. LoadSimParms tx parms g = Inl (e, st)) \<longleftrightarrow> \<not> all_queries_succeed tx parms"
  by (auto simp: LoadSimParms_def Let_def fSet_LoadSimParms_queries)

lemma load_fails_when_query_fails:
  assumes "\<not> all_queries_succeed tx parms"
    and "FirstChildElement doc ''SimParams'' = Some parms"
  shows "fst (load_simulation_parameters tx rp (Some doc) g) = False"
  using assms
  by (simp add: load_simulation_parameters_def LoadSimParms_def Let_def
      fSet_LoadSimParms_queries)

text \<open>An exception of the model's \<^verbatim>\<open>readParameters\<close> fails the load as well.\<close>

lemma load_fails_when_model_throws:
  assumes "rp parms = RP_throws e"
    and "FirstChildElement doc ''SimParams'' = Some parms"
  shows "fst (load_simulation_parameters tx rp (Some doc) g) = False"
  using assms
  by (simp add: load_simulation_parameters_def split: sum.split prod.split)

lemma main_stops_when_load_fails:
  assumes "fst (load_simulation_parameters (conversions env) (model_readParameters env)
             (files env (stateinfile args)) (g\<lparr>stateOutputFileName := stateoutfile args\<rparr>)) = False"
  shows "main env (Some args) g s = Some (- 1, s)"
proof -
  obtain b g' where
    l: "load_simulation_parameters (conversions env) (model_readParameters env)
          (files env (stateinfile args)) (g\<lparr>stateOutputFileName := stateoutfile args\<rparr>) = (b, g')"
    by (cases "load_simulation_parameters (conversions env) (model_readParameters env)
          (files env (stateinfile args)) (g\<lparr>stateOutputFileName := stateoutfile args\<rparr>)")
  with assms have "b = False"
    by simp
  with l show ?thesis
    by (simp add: main_def)
qed

text \<open>The load of the example file, evaluated.\<close>

lemma tiny_first_child: "FirstChildElement tiny_doc ''SimParams'' = Some tiny_SimParams"
  by (simp add: FirstChildElement_def tiny_doc_def tiny_SimParams_def)

lemma tiny_queries:
  "LoadSimParms_queries tiny_conversions tiny_SimParams g =
     \<lparr> vars = g\<lparr>poolsize := (poolsize g)(0 := 2, 1 := 2, 2 := 1), Tsim := Finite 1, numSims := 1,
               g_maxFiringRate := 200, g_maxSynapsesPerNeuron := 200,
               stateOutputFileName := ''test-tiny-out.xml'', g_seed := 1\<rparr>,
       fSet = True, cerr = [] \<rparr>"
  by (simp add: LoadSimParms_queries_def load_PoolSize_def load_SimParams_def
      load_OutputParams_def load_Seed_def FirstChildElement_def tiny_SimParams_def
      QueryAttribute_def query_def tiny_conversions_def tiny_to_int_def tiny_to_FLOAT_def)


lemma tiny_load:
  "load_simulation_parameters tiny_conversions (\<lambda>parms. RP_returns False) (Some tiny_doc) g =
     (True, g\<lparr>poolsize := (poolsize g)(0 := 2, 1 := 2, 2 := 1), Tsim := Finite 1, numSims := 1,
               g_maxFiringRate := 200, g_maxSynapsesPerNeuron := 200,
               stateOutputFileName := ''test-tiny-out.xml'', g_seed := 1\<rparr>)"
  by (simp add: load_simulation_parameters_def tiny_first_child LoadSimParms_def tiny_queries)

lemma tiny_make:
  "makeSimulationInfo 2 2 (Finite 1) (bg_of_int exact_arith 1) 200 200 (Finite (1 / 10000)) 1 =
     Some tiny_info"
  by (simp add: makeSimulationInfo_def int_times_def INT_MAX_def INT_MIN_def exact_arith_def
      trunc_def tiny_info_def)

lemma tiny_run:
  "map_option fst
     (run_simulator exact_arith tiny_info (None :: unit memory_image option) False initial_state) =
     Some \<lparr> g_simulationStep = 10000,
            calls = Setup (Finite 1) 1 # replicate 10000 Advance
                    @ [UpdateConnections 1, Finish (Finite 1) 1, SaveState] \<rparr>"
proof -
  have c: "1 \<le> maxSteps tiny_info \<Longrightarrow> ticksPerEpoch exact_arith tiny_info = Some 10000"
    by (simp add: example_ticks)
  have s1: "initial_state = (case (None :: unit memory_image option) of
              Some img \<Rightarrow> readMemory img initial_state | None \<Rightarrow> initial_state)"
    by simp
  have fit: "unat (g_simulationStep initial_state)
             + nat (maxSteps tiny_info) * unat (10000 :: 64 word) < 2 ^ 64"
    by (simp add: example_fields initial_state_def)
  show ?thesis
    using run_simulator_exact [OF c s1 fit, of False]
    by (simp add: example_fields initial_state_def epoch_schedule_def)
qed

text \<open>
  Claim C6 fails on the code: \<^verbatim>\<open>load_simulation_parameters\<close> does not look at the
  truth value \<^verbatim>\<open>model->readParameters\<close> returns. On the example file, which lacks a
  parameter of the model, the model returns false; the load still succeeds,
  \<^verbatim>\<open>main\<close> runs the whole simulation (10000 network advances) and exits with 0.
\<close>

theorem load_ignores_model_result:
  "model_readParameters tiny_env tiny_SimParams = RP_returns False
   \<and> main tiny_env (Some tiny_args) zero_globals initial_state =
       Some (0, \<lparr> g_simulationStep = 10000,
                   calls = Setup (Finite 1) 1 # replicate 10000 Advance
                           @ [UpdateConnections 1, Finish (Finite 1) 1, SaveState] \<rparr>)"
proof -
  have load: "load_simulation_parameters (conversions tiny_env) (model_readParameters tiny_env)
                (files tiny_env (stateinfile tiny_args))
                (zero_globals\<lparr>stateOutputFileName := stateoutfile tiny_args\<rparr>) =
     (True, zero_globals\<lparr>stateOutputFileName := stateoutfile tiny_args,
              poolsize := (poolsize (zero_globals\<lparr>stateOutputFileName := stateoutfile tiny_args\<rparr>))
                            (0 := 2, 1 := 2, 2 := 1),
              Tsim := Finite 1, numSims := 1,
              g_maxFiringRate := 200, g_maxSynapsesPerNeuron := 200,
              stateOutputFileName := ''test-tiny-out.xml'', g_seed := 1\<rparr>)"
    by (simp add: tiny_env_def tiny_args_def tiny_load)
  from tiny_run obtain out where
    run: "run_simulator exact_arith tiny_info (None :: unit memory_image option) False
            initial_state =
          Some (\<lparr> g_simulationStep = 10000,
                  calls = Setup (Finite 1) 1 # replicate 10000 Advance
                          @ [UpdateConnections 1, Finish (Finite 1) 1, SaveState] \<rparr>, out)"
    by auto
  have env: "arith tiny_env = exact_arith" "DEFAULT_dt tiny_env = Finite (1 / 10000)"
    "meminfile tiny_args = []" "memoutfile tiny_args = []"
    by (simp_all add: tiny_env_def tiny_args_def)
  have "main tiny_env (Some tiny_args) zero_globals initial_state =
       Some (0, \<lparr> g_simulationStep = 10000,
                   calls = Setup (Finite 1) 1 # replicate 10000 Advance
                           @ [UpdateConnections 1, Finish (Finite 1) 1, SaveState] \<rparr>)"
    by (simp add: main_def load env tiny_make run)
  moreover have "model_readParameters tiny_env tiny_SimParams = RP_returns False"
    by (simp add: tiny_env_def)
  ultimately show ?thesis
    by blast
qed

section \<open>Properties of the growth update\<close>

text \<open>Each growth update appends one row to each history and leaves the others.\<close>

lemma count_spikes_simps [simp]:
  "radiiHistory (count_spikes spikes c) = radiiHistory c"
  "ratesHistory (count_spikes spikes c) = ratesHistory c"
  "radii (count_spikes spikes c) = radii c"
  by (simp_all add: count_spikes_def)

lemma updateConnections_histories:
  "radiiHistory (updateConnections p e c) = radiiHistory c @ [radii (updateConnections p e c)]"
  "ratesHistory (updateConnections p e c) = ratesHistory c @ [rates (updateConnections p e c)]"
  by (simp_all add: updateConnections_def Let_def)

lemma growth_run_append:
  "growth_run p e (xs @ ys) c = growth_run p e ys (growth_run p e xs c)"
  by (induction xs arbitrary: c) simp_all

lemma length_radiiHistory_growth_run:
  "length (radiiHistory (growth_run p e epochs c)) = length (radiiHistory c) + length epochs"
  by (induction epochs arbitrary: c) (simp_all add: updateConnections_histories)

lemma length_ratesHistory_growth_run:
  "length (ratesHistory (growth_run p e epochs c)) = length (ratesHistory c) + length epochs"
  by (induction epochs arbitrary: c) (simp_all add: updateConnections_histories)

lemma radiiHistory_growth_run_prefix:
  "take (length (radiiHistory c)) (radiiHistory (growth_run p e epochs c)) = radiiHistory c"
proof (induction epochs arbitrary: c)
  case Nil
  then show ?case by simp
next
  case (Cons spikes epochs)
  let ?c1 = "updateConnections p e (count_spikes spikes c)"
  have "take (length (radiiHistory c)) (radiiHistory (growth_run p e epochs ?c1)) =
        take (length (radiiHistory c))
          (take (length (radiiHistory ?c1)) (radiiHistory (growth_run p e epochs ?c1)))"
    by (simp add: updateConnections_histories min_def)
  also have "\<dots> = take (length (radiiHistory c)) (radiiHistory ?c1)"
    by (simp only: Cons.IH)
  also have "\<dots> = radiiHistory c"
    by (simp add: updateConnections_histories)
  finally show ?case
    by simp
qed

lemma ratesHistory_growth_run_prefix:
  "take (length (ratesHistory c)) (ratesHistory (growth_run p e epochs c)) = ratesHistory c"
proof (induction epochs arbitrary: c)
  case Nil
  then show ?case by simp
next
  case (Cons spikes epochs)
  let ?c1 = "updateConnections p e (count_spikes spikes c)"
  have "take (length (ratesHistory c)) (ratesHistory (growth_run p e epochs ?c1)) =
        take (length (ratesHistory c))
          (take (length (ratesHistory ?c1)) (ratesHistory (growth_run p e epochs ?c1)))"
    by (simp add: updateConnections_histories min_def)
  also have "\<dots> = take (length (ratesHistory c)) (ratesHistory ?c1)"
    by (simp only: Cons.IH)
  also have "\<dots> = ratesHistory c"
    by (simp add: updateConnections_histories)
  finally show ?case
    by simp
qed

text \<open>Every radius a growth update leaves respects the bound, and so does every row.\<close>

lemma radii_updateConnections_bound:
  "r \<in> set (radii (updateConnections p e c)) \<Longrightarrow> minRadius p \<le> r"
  by (auto simp: updateConnections_def Let_def)

lemma radiiHistory_growth_run_bound:
  assumes "\<forall>row \<in> set (radiiHistory c). \<forall>r \<in> set row. minRadius p \<le> r"
  shows "\<forall>row \<in> set (radiiHistory (growth_run p e epochs c)). \<forall>r \<in> set row. minRadius p \<le> r"
  using assms
proof (induction epochs arbitrary: c)
  case Nil
  then show ?case by simp
next
  case (Cons spikes epochs)
  let ?c1 = "updateConnections p e (count_spikes spikes c)"
  have "\<forall>row \<in> set (radiiHistory ?c1). \<forall>r \<in> set row. minRadius p \<le> r"
    using Cons.prems radii_updateConnections_bound [of _ p e "count_spikes spikes c"]
    by (auto simp: updateConnections_histories)
  then show ?case
    using Cons.IH [of ?c1] by simp
qed

text \<open>The radius update is step 3 of the growth update.\<close>

lemma radii_updateConnections:
  "radii (updateConnections p e c) =
     update_radii p (radii c) (deltaR (updateConnections p e c))"
  by (simp add: updateConnections_def update_radii_def Let_def)

text \<open>The state after epoch \<open>j\<close> (0-based) and the row that epoch appends.\<close>

lemma growth_run_take_Suc:
  assumes "j < length epochs"
  shows "growth_run p e (take (Suc j) epochs) c =
           updateConnections p e (count_spikes (epochs ! j) (growth_run p e (take j epochs) c))"
proof -
  from assms have "take (Suc j) epochs = take j epochs @ [epochs ! j]"
    by (rule take_Suc_conv_app_nth)
  then show ?thesis
    by (simp add: growth_run_append)
qed

lemma radiiHistory_growth_run_row:
  assumes "j < length epochs"
  shows "radiiHistory (growth_run p e epochs c) ! (length (radiiHistory c) + j) =
           radii (growth_run p e (take (Suc j) epochs) c)"
proof -
  let ?c1 = "growth_run p e (take j epochs) c"
  let ?c2 = "growth_run p e (take (Suc j) epochs) c"
  have c2: "?c2 = updateConnections p e (count_spikes (epochs ! j) ?c1)"
    using assms by (rule growth_run_take_Suc)
  have l1: "length (radiiHistory ?c1) = length (radiiHistory c) + j"
    using assms by (simp add: length_radiiHistory_growth_run min_def)
  have h2: "radiiHistory ?c2 = radiiHistory ?c1 @ [radii ?c2]"
    unfolding c2 by (simp add: updateConnections_histories)
  have run: "growth_run p e epochs c = growth_run p e (drop (Suc j) epochs) ?c2"
    using growth_run_append [of p e "take (Suc j) epochs" "drop (Suc j) epochs" c] by simp
  have "take (length (radiiHistory ?c2)) (radiiHistory (growth_run p e (drop (Suc j) epochs) ?c2)) =
        radiiHistory ?c2"
    by (rule radiiHistory_growth_run_prefix)
  then have t: "take (length (radiiHistory ?c2)) (radiiHistory (growth_run p e epochs c)) =
                radiiHistory ?c2"
    unfolding run [symmetric] .
  have less: "length (radiiHistory c) + j < length (radiiHistory ?c2)"
    by (simp add: h2 l1)
  have "radiiHistory (growth_run p e epochs c) ! (length (radiiHistory c) + j) =
        take (length (radiiHistory ?c2)) (radiiHistory (growth_run p e epochs c))
          ! (length (radiiHistory c) + j)"
    using less by simp
  also have "\<dots> = radiiHistory ?c2 ! (length (radiiHistory c) + j)"
    by (simp only: t)
  also have "\<dots> = radii ?c2"
    unfolding h2 l1 [symmetric] by (rule nth_append_length)
  finally show ?thesis .
qed

text \<open>
  Claim C7. The radius update sets every radius to \<open>max minRadius (radius + deltaR)\<close>,
  so the new radius is at least \<open>minRadius\<close> whatever the displacement \<open>deltaR\<close> is,
  however negative. The growth update applies that step to its radii. In a run,
  the row that epoch \<open>j\<close> appends to the radius history holds the radii after that
  epoch, and each of them is at least \<open>minRadius\<close>, for any growth parameters, any
  spike counts and any state before the run.
\<close>

theorem radius_never_below_minRadius:
  assumes "i < length rs" and "i < length ds" and "j < length epochs"
  shows "update_radii p rs ds ! i = max (minRadius p) (rs ! i + ds ! i)
         \<and> minRadius p \<le> update_radii p rs ds ! i
         \<and> radii (updateConnections p e c) =
             update_radii p (radii c) (deltaR (updateConnections p e c))
         \<and> radiiHistory (growth_run p e epochs c) ! (length (radiiHistory c) + j) =
             radii (growth_run p e (take (Suc j) epochs) c)
         \<and> (\<forall>r \<in> set (radii (growth_run p e (take (Suc j) epochs) c)). minRadius p \<le> r)"
proof -
  have a: "update_radii p rs ds ! i = max (minRadius p) (rs ! i + ds ! i)"
    using assms(1,2) by (simp add: update_radii_def)
  then have b: "minRadius p \<le> update_radii p rs ds ! i"
    by simp
  have d: "radiiHistory (growth_run p e epochs c) ! (length (radiiHistory c) + j) =
             radii (growth_run p e (take (Suc j) epochs) c)"
    using assms(3) by (rule radiiHistory_growth_run_row)
  have "growth_run p e (take (Suc j) epochs) c =
          updateConnections p e (count_spikes (epochs ! j) (growth_run p e (take j epochs) c))"
    using assms(3) by (rule growth_run_take_Suc)
  then have f: "\<forall>r \<in> set (radii (growth_run p e (take (Suc j) epochs) c)). minRadius p \<le> r"
    using radii_updateConnections_bound by simp
  from a b radii_updateConnections d f show ?thesis
    by blast
qed

text \<open>
  An instance in which the bound is what decides the radius: a displacement of -5,
  and a run whose start radius 1/20 lies below the minimal radius 1/10.
\<close>

theorem radius_never_below_minRadius_witness:
  "(0::nat) < length [4 / 10 :: real] \<and> (0::nat) < length [- 5 :: real]
   \<and> (0::nat) < length silent_epoch
   \<and> (4 / 10 + - 5 :: real) < minRadius low_start_growth
   \<and> startRadius low_start_growth < minRadius low_start_growth
   \<and> update_radii low_start_growth [4 / 10] [- 5] ! 0 = 1 / 10
   \<and> radiiHistory (growth_run low_start_growth 1 silent_epoch
                     (initial_connections low_start_growth 2)) ! 0 = [1 / 10, 1 / 10]"
proof -
  have h1: "(0::nat) < length [4 / 10 :: real]"
    by simp
  have h2: "(0::nat) < length [- 5 :: real]"
    by simp
  have h3: "(0::nat) < length silent_epoch"
    by (simp add: silent_epoch_def)
  have p: "minRadius low_start_growth = 1 / 10" "startRadius low_start_growth = 1 / 20"
    by (simp_all add: low_start_growth_def tiny_growth_def)
  have radii1: "radii (growth_run low_start_growth 1 (take (Suc 0) silent_epoch)
                        (initial_connections low_start_growth 2)) = [1 / 10, 1 / 10]"
    by (simp add: silent_epoch_def initial_connections_def updateConnections_def
        count_spikes_def outgrowth_law_def Let_def numeral_2_eq_2 p)
  have e: "radiiHistory (initial_connections low_start_growth 2) = []"
    by (simp add: initial_connections_def)
  from radius_never_below_minRadius [OF h1 h2 h3, of low_start_growth 1
      "initial_connections low_start_growth 2"]
  have a: "update_radii low_start_growth [4 / 10] [- 5] ! 0 =
             max (minRadius low_start_growth) ([4 / 10] ! 0 + [- 5] ! 0)"
    and d: "radiiHistory (growth_run low_start_growth 1 silent_epoch
                            (initial_connections low_start_growth 2))
              ! (length (radiiHistory (initial_connections low_start_growth 2)) + 0) =
            radii (growth_run low_start_growth 1 (take (Suc 0) silent_epoch)
                     (initial_connections low_start_growth 2))"
    by blast+
  from a have a': "update_radii low_start_growth [4 / 10] [- 5] ! 0 = 1 / 10"
    by (simp add: p)
  from d have d': "radiiHistory (growth_run low_start_growth 1 silent_epoch
                     (initial_connections low_start_growth 2)) ! 0 = [1 / 10, 1 / 10]"
    by (simp only: e radii1 list.size add_0_right)
  have "(4 / 10 + - 5 :: real) < minRadius low_start_growth"
    "startRadius low_start_growth < minRadius low_start_growth"
    by (simp_all add: p)
  with h1 h2 h3 a' d' show ?thesis
    by blast
qed

text \<open>
  Claim C8. The histories only grow by appending. A run over the epochs \<open>epochs\<close>
  adds exactly one row per epoch to the radius history and to the rate history
  (\<open>N\<close> rows after \<open>N\<close> epochs from empty histories), and what the histories held after
  the first \<open>j\<close> epochs is still there, unchanged, as the first rows after the last
  epoch.
\<close>

theorem histories_append_only:
  assumes "j \<le> length epochs"
  shows "length (radiiHistory (growth_run p e epochs c)) = length (radiiHistory c) + length epochs
         \<and> length (ratesHistory (growth_run p e epochs c)) =
             length (ratesHistory c) + length epochs
         \<and> take (length (radiiHistory c) + j) (radiiHistory (growth_run p e epochs c)) =
             radiiHistory (growth_run p e (take j epochs) c)
         \<and> take (length (ratesHistory c) + j) (ratesHistory (growth_run p e epochs c)) =
             ratesHistory (growth_run p e (take j epochs) c)"
proof -
  let ?c1 = "growth_run p e (take j epochs) c"
  have run: "growth_run p e epochs c = growth_run p e (drop j epochs) ?c1"
    using growth_run_append [of p e "take j epochs" "drop j epochs" c] by simp
  have l1: "length (radiiHistory ?c1) = length (radiiHistory c) + j"
    using assms by (simp add: length_radiiHistory_growth_run min_def)
  have l2: "length (ratesHistory ?c1) = length (ratesHistory c) + j"
    using assms by (simp add: length_ratesHistory_growth_run min_def)
  have "take (length (radiiHistory ?c1)) (radiiHistory (growth_run p e (drop j epochs) ?c1)) =
        radiiHistory ?c1"
    by (rule radiiHistory_growth_run_prefix)
  then have a: "take (length (radiiHistory c) + j) (radiiHistory (growth_run p e epochs c)) =
                radiiHistory ?c1"
    unfolding l1 run [symmetric] .
  have "take (length (ratesHistory ?c1)) (ratesHistory (growth_run p e (drop j epochs) ?c1)) =
        ratesHistory ?c1"
    by (rule ratesHistory_growth_run_prefix)
  then have b: "take (length (ratesHistory c) + j) (ratesHistory (growth_run p e epochs c)) =
                ratesHistory ?c1"
    unfolding l2 run [symmetric] .
  from a b show ?thesis
    by (simp add: length_radiiHistory_growth_run length_ratesHistory_growth_run)
qed

theorem histories_append_only_witness:
  "(1::nat) \<le> length two_epochs
   \<and> length (radiiHistory (growth_run tiny_growth 1 two_epochs (initial_connections tiny_growth 2)))
       = 2
   \<and> length (ratesHistory (growth_run tiny_growth 1 two_epochs (initial_connections tiny_growth 2)))
       = 2
   \<and> take 1 (radiiHistory (growth_run tiny_growth 1 two_epochs (initial_connections tiny_growth 2)))
       = radiiHistory (growth_run tiny_growth 1 (take 1 two_epochs)
                         (initial_connections tiny_growth 2))
   \<and> ratesHistory (growth_run tiny_growth 1 two_epochs (initial_connections tiny_growth 2))
       = [[3, 0], [0, 5]]"
proof -
  have h: "(1::nat) \<le> length two_epochs"
    by (simp add: two_epochs_def)
  have e: "radiiHistory (initial_connections tiny_growth 2) = []"
    "ratesHistory (initial_connections tiny_growth 2) = []"
    by (simp_all add: initial_connections_def)
  have l: "length two_epochs = 2"
    by (simp add: two_epochs_def)
  have rates: "ratesHistory (growth_run tiny_growth 1 two_epochs
                 (initial_connections tiny_growth 2)) = [[3, 0], [0, 5]]"
    by (simp add: two_epochs_def initial_connections_def updateConnections_def count_spikes_def
        Let_def numeral_2_eq_2)
  from histories_append_only [OF h, of tiny_growth 1 "initial_connections tiny_growth 2"] h rates
  show ?thesis
    by (simp add: e l)
qed

section \<open>Properties of the delay queue\<close>

text \<open>The bits of the queue after \<^verbatim>\<open>notify\<close>, after \<^verbatim>\<open>step\<close> and after a whole tick.\<close>

lemma LENGTH_OF_DELAYQUEUE_32 [simp]: "LENGTH_OF_DELAYQUEUE = 32"
  by (simp add: LENGTH_OF_DELAYQUEUE_def BYTES_OF_DELAYQUEUE_def)

lemma bit_notify:
  "bit (delayQueue (notify now syn)) j \<longleftrightarrow>
     bit (delayQueue syn) j \<or> (now + total_delay syn) mod 32 = j"
  by (auto simp: notify_def bit_set_bit_iff possible_bit_def)

lemma synapse_step_delivered:
  "snd (synapse_step tick syn) = bit (delayQueue syn) (tick mod 32)"
  by (simp add: synapse_step_def)

lemma bit_synapse_step:
  "bit (delayQueue (fst (synapse_step tick syn))) j \<longleftrightarrow>
     bit (delayQueue syn) j \<and> j \<noteq> tick mod 32"
  by (auto simp: synapse_step_def bit_unset_bit_iff)

lemma total_delay_simps [simp]:
  "total_delay (notify now syn) = total_delay syn"
  "total_delay (fst (synapse_step tick syn)) = total_delay syn"
  "total_delay (fst (synapse_tick spike tick syn)) = total_delay syn"
  by (simp_all add: notify_def synapse_step_def synapse_tick_def)

text \<open>Slots of the circular buffer: offsets below its width do not collide.\<close>

lemma same_slot_iff:
  assumes "d < 32"
  shows "(tick + d) mod 32 = tick mod 32 \<longleftrightarrow> d = (0::nat)"
proof
  assume eq: "(tick + d) mod 32 = tick mod 32"
  have "tick \<le> tick + d"
    by simp
  from mod_eq_dvd_iff_nat [OF this, of 32] eq have "32 dvd (tick + d) - tick"
    by blast
  then have dvd: "32 dvd d"
    by simp
  show "d = 0"
  proof (rule ccontr)
    assume "d \<noteq> 0"
    then have "0 < d"
      by simp
    from nat_dvd_not_less [OF this assms] dvd show False
      by blast
  qed
next
  assume "d = 0"
  then show "(tick + d) mod 32 = tick mod 32"
    by simp
qed

lemma synapse_tick_delivered:
  assumes "total_delay syn < 32"
  shows "snd (synapse_tick spike tick syn) \<longleftrightarrow>
           bit (delayQueue syn) (tick mod 32) \<or> (spike \<and> total_delay syn = 0)"
proof (cases spike)
  case True
  then have "snd (synapse_tick spike tick syn) \<longleftrightarrow>
          bit (delayQueue (notify tick syn)) (tick mod 32)"
    by (simp add: synapse_tick_def synapse_step_delivered)
  also have "\<dots> \<longleftrightarrow> bit (delayQueue syn) (tick mod 32)
          \<or> (tick + total_delay syn) mod 32 = tick mod 32"
    by (rule bit_notify)
  also have "\<dots> \<longleftrightarrow> bit (delayQueue syn) (tick mod 32) \<or> total_delay syn = 0"
    unfolding same_slot_iff [OF assms] ..
  finally show ?thesis
    using True by blast
next
  case False
  then show ?thesis
    by (simp add: synapse_tick_def synapse_step_delivered)
qed

lemma bit_synapse_tick:
  "bit (delayQueue (fst (synapse_tick spike tick syn))) j \<longleftrightarrow>
     (bit (delayQueue syn) j \<or> (spike \<and> (tick + total_delay syn) mod 32 = j))
     \<and> j \<noteq> tick mod 32"
proof (cases spike)
  case True
  then show ?thesis
    by (simp add: synapse_tick_def bit_synapse_step bit_notify)
next
  case False
  then show ?thesis
    by (simp add: synapse_tick_def bit_synapse_step)
qed


lemma slot_inj:
  assumes "a < 32" and "b < 32"
  shows "(tick + a) mod 32 = (tick + b) mod 32 \<longleftrightarrow> a = (b::nat)"
proof
  assume eq: "(tick + a) mod 32 = (tick + b) mod 32"
  show "a = b"
  proof (cases "a \<le> b")
    case True
    then have "tick + a \<le> tick + b"
      by simp
    from mod_eq_dvd_iff_nat [OF this, of 32] eq have "32 dvd (tick + b) - (tick + a)"
      by simp
    then have dvd: "32 dvd b - a"
      by simp
    have "b - a = 0"
    proof (rule ccontr)
      assume "b - a \<noteq> 0"
      then have "0 < b - a"
        by simp
      moreover have "b - a < 32"
        using assms(2) by simp
      ultimately show False
        using dvd nat_dvd_not_less by blast
    qed
    with True show ?thesis
      by simp
  next
    case False
    then have "tick + b \<le> tick + a"
      by simp
    from mod_eq_dvd_iff_nat [OF this, of 32] eq have "32 dvd (tick + a) - (tick + b)"
      by simp
    then have dvd: "32 dvd a - b"
      by simp
    have "a - b = 0"
    proof (rule ccontr)
      assume "a - b \<noteq> 0"
      then have "0 < a - b"
        by simp
      moreover have "a - b < 32"
        using assms(1) by simp
      ultimately show False
        using dvd nat_dvd_not_less by blast
    qed
    with False show ?thesis
      by simp
  qed
next
  assume "a = b"
  then show "(tick + a) mod 32 = (tick + b) mod 32"
    by simp
qed

lemma synapse_run_Cons:
  "fst (synapse_run tick (spike # spikes) syn) =
     snd (synapse_tick spike tick syn)
     # fst (synapse_run (Suc tick) spikes (fst (synapse_tick spike tick syn)))"
  by (simp add: split_def Let_def)

lemma length_synapse_run [simp]: "length (fst (synapse_run tick spikes syn)) = length spikes"
  by (induction spikes arbitrary: tick syn) (simp_all add: split_def Let_def)

text \<open>
  Deliveries of a run that starts with any queue: a bit that was pending at the
  start is delivered when its slot comes up within the first 32 ticks; every spike is
  delivered \<open>total_delay\<close> ticks after it.
\<close>

lemma synapse_run_deliveries:
  assumes "total_delay syn < 32" and "i < length spikes"
  shows "fst (synapse_run tick spikes syn) ! i \<longleftrightarrow>
           (i < 32 \<and> bit (delayQueue syn) ((tick + i) mod 32))
           \<or> (total_delay syn \<le> i \<and> spikes ! (i - total_delay syn))"
  using assms
proof (induction spikes arbitrary: tick syn i)
  case Nil
  then show ?case
    by simp
next
  case (Cons spike spikes)
  let ?d = "total_delay syn"
  let ?syn1 = "fst (synapse_tick spike tick syn)"
  show ?case
  proof (cases i)
    case 0
    have "snd (synapse_tick spike tick syn) \<longleftrightarrow>
            bit (delayQueue syn) (tick mod 32) \<or> (spike \<and> ?d = 0)"
      using Cons.prems(1) by (rule synapse_tick_delivered)
    with 0 show ?thesis
      unfolding synapse_run_Cons by auto
  next
    case (Suc i')
    have d1: "total_delay ?syn1 < 32"
      using Cons.prems(1) by simp
    have len: "i' < length spikes"
      using Cons.prems(2) Suc by simp
    have ih: "fst (synapse_run (Suc tick) spikes ?syn1) ! i' \<longleftrightarrow>
           (i' < 32 \<and> bit (delayQueue ?syn1) ((Suc tick + i') mod 32))
           \<or> (?d \<le> i' \<and> spikes ! (i' - ?d))"
      using Cons.IH [OF d1 len, of "Suc tick"] by simp
    have slot: "(Suc tick + i') mod 32 = (tick + Suc i') mod 32"
      by simp
    have lhs: "fst (synapse_run tick (spike # spikes) syn) ! Suc i' =
               fst (synapse_run (Suc tick) spikes ?syn1) ! i'"
      unfolding synapse_run_Cons by simp
    consider (late) "32 \<le> i'" | (wrap) "i' = 31" | (early) "i' < 31"
      by linarith
    then have "fst (synapse_run tick (spike # spikes) syn) ! Suc i' \<longleftrightarrow>
           (Suc i' < 32 \<and> bit (delayQueue syn) ((tick + Suc i') mod 32))
           \<or> (?d \<le> Suc i' \<and> (spike # spikes) ! (Suc i' - ?d))"
    proof cases
      case late
      then have "?d \<le> i'"
        using Cons.prems(1) by simp
      then have "(spike # spikes) ! (Suc i' - ?d) = spikes ! (i' - ?d)"
        by (simp add: Suc_diff_le)
      with late \<open>?d \<le> i'\<close> show ?thesis
        unfolding lhs ih by simp
    next
      case wrap
      have "\<not> bit (delayQueue ?syn1) ((Suc tick + i') mod 32)"
        unfolding bit_synapse_tick using wrap by simp
      moreover have "?d \<le> i'"
        using Cons.prems(1) wrap by simp
      moreover from this have "(spike # spikes) ! (Suc i' - ?d) = spikes ! (i' - ?d)"
        by (simp add: Suc_diff_le)
      ultimately show ?thesis
        unfolding lhs ih using wrap by simp
    next
      case early
      then have s: "Suc i' < 32"
        by simp
      have ne: "(tick + Suc i') mod 32 \<noteq> tick mod 32"
        using slot_inj [of "Suc i'" 0 tick] s by simp
      have hit: "(tick + ?d) mod 32 = (tick + Suc i') mod 32 \<longleftrightarrow> ?d = Suc i'"
        using Cons.prems(1) s by (rule slot_inj)
      have b1: "bit (delayQueue ?syn1) ((Suc tick + i') mod 32) \<longleftrightarrow>
                bit (delayQueue syn) ((tick + Suc i') mod 32) \<or> (spike \<and> ?d = Suc i')"
        unfolding bit_synapse_tick slot using ne hit by simp
      show ?thesis
      proof (cases "?d = Suc i'")
        case True
        then show ?thesis
          unfolding lhs ih b1 using early by simp
      next
        case False
        have "?d \<le> Suc i' \<longleftrightarrow> ?d \<le> i'"
          using False by linarith
        moreover have "?d \<le> i' \<Longrightarrow> (spike # spikes) ! (Suc i' - ?d) = spikes ! (i' - ?d)"
          by (simp add: Suc_diff_le)
        ultimately show ?thesis
          unfolding lhs ih b1 using early False by auto
      qed
    qed
    then show ?thesis
      unfolding Suc .
  qed
qed

text \<open>
  Claim C9. For a synapse whose delay is smaller than the width of the queue (32
  ticks, the longest delay the queue supports): the charge is delivered in a tick
  exactly when the source neuron fired \<open>delay\<close> ticks before, or when a bit that was
  pending at the start comes up in the first round of the queue. So each spike
  notified at tick \<open>T\<close> is delivered once, at tick \<open>T + delay\<close>, never twice and never
  lost; from an empty queue the deliveries are exactly the spikes, \<open>delay\<close> ticks
  later. \<^verbatim>\<open>notify\<close> sets the bit \<open>(T + delay) mod 32\<close>, and the bit of a tick is clear
  as soon as \<^verbatim>\<open>step\<close> has looked at it.
\<close>

theorem delay_queue_delivers_exactly_once:
  assumes "total_delay syn < LENGTH_OF_DELAYQUEUE"
    and "i < length spikes"
  shows "(fst (synapse_run T spikes syn) ! i \<longleftrightarrow>
            (i < LENGTH_OF_DELAYQUEUE
             \<and> bit (delayQueue syn) ((T + i) mod LENGTH_OF_DELAYQUEUE))
            \<or> (total_delay syn \<le> i \<and> spikes ! (i - total_delay syn)))
         \<and> (delayQueue syn = 0 \<longrightarrow>
              (fst (synapse_run T spikes syn) ! i \<longleftrightarrow>
                 total_delay syn \<le> i \<and> spikes ! (i - total_delay syn)))
         \<and> length (fst (synapse_run T spikes syn)) = length spikes
         \<and> bit (delayQueue (notify T syn)) ((T + total_delay syn) mod LENGTH_OF_DELAYQUEUE)
         \<and> \<not> bit (delayQueue (fst (synapse_step T syn'))) (T mod LENGTH_OF_DELAYQUEUE)"
proof -
  from assms(1) have d: "total_delay syn < 32"
    by simp
  have a: "fst (synapse_run T spikes syn) ! i \<longleftrightarrow>
           (i < 32 \<and> bit (delayQueue syn) ((T + i) mod 32))
           \<or> (total_delay syn \<le> i \<and> spikes ! (i - total_delay syn))"
    using d assms(2) by (rule synapse_run_deliveries)
  then have a0: "delayQueue syn = 0 \<longrightarrow>
              (fst (synapse_run T spikes syn) ! i \<longleftrightarrow>
                 total_delay syn \<le> i \<and> spikes ! (i - total_delay syn))"
    by simp
  have b: "bit (delayQueue (notify T syn)) ((T + total_delay syn) mod LENGTH_OF_DELAYQUEUE)"
    by (simp add: bit_notify)
  have c: "\<not> bit (delayQueue (fst (synapse_step T syn'))) (T mod LENGTH_OF_DELAYQUEUE)"
    by (simp add: bit_synapse_step)
  from a a0 b c show ?thesis
    by simp
qed

text \<open>
  An instance: a delay of two ticks, one spike at tick 30, 35 ticks. The charge is
  delivered at tick 32, not at tick 33, and not at tick 64, when the same bit of the
  queue comes up again.
\<close>

theorem delay_queue_delivers_exactly_once_witness:
  "total_delay idle_synapse < LENGTH_OF_DELAYQUEUE \<and> delayQueue idle_synapse = 0
   \<and> 2 < length one_spike \<and> 3 < length one_spike \<and> 34 < length one_spike
   \<and> fst (synapse_run 30 one_spike idle_synapse) ! 2
   \<and> \<not> fst (synapse_run 30 one_spike idle_synapse) ! 3
   \<and> \<not> fst (synapse_run 30 one_spike idle_synapse) ! 34"
proof -
  have h1: "total_delay idle_synapse < LENGTH_OF_DELAYQUEUE"
    by (simp add: idle_synapse_def)
  have h2: "delayQueue idle_synapse = 0"
    by (simp add: idle_synapse_def)
  have h3: "2 < length one_spike"
    by (simp add: one_spike_def)
  have h4: "3 < length one_spike"
    by (simp add: one_spike_def)
  have h5: "34 < length one_spike"
    by (simp add: one_spike_def)
  have a: "fst (synapse_run 30 one_spike idle_synapse) ! 2"
    using delay_queue_delivers_exactly_once [OF h1 h3, of 30]
    by (simp add: idle_synapse_def one_spike_def)
  have b: "\<not> fst (synapse_run 30 one_spike idle_synapse) ! 3"
    using delay_queue_delivers_exactly_once [OF h1 h4, of 30]
    by (simp add: idle_synapse_def one_spike_def)
  have c: "\<not> fst (synapse_run 30 one_spike idle_synapse) ! 34"
    using delay_queue_delivers_exactly_once [OF h1 h5, of 30]
    by (simp add: idle_synapse_def one_spike_def)
  from h1 h2 h3 h4 h5 a b c show ?thesis
    by blast
qed

text \<open>
  The bound on the delay is needed: with a delay as long as the queue is wide, a
  spike notified at tick 0 sets the bit of tick 0 itself, and the charge is delivered
  in tick 0.
\<close>

lemma wide_delay_delivered_at_once:
  "synapse_run 0 [True] wide_synapse = ([True], wide_synapse)"
proof -
  have "unset_bit 0 (set_bit 0 (0::32 word)) = 0"
    by (rule bit_eqI) (auto simp: bit_unset_bit_iff bit_set_bit_iff bit_1_iff)
  then show ?thesis
    by (simp add: synapse_tick_def synapse_step_def notify_def wide_synapse_def
        bit_set_bit_iff possible_bit_def)
qed


end
